theory Spec2Isabelle
  imports Main "HOL-Library.Word"
begin

unbundle bit_operations_syntax

section \<open>Image duplicate checker: a shallow embedding\<close>

text \<open>
  The repository holds two revisions of one VS Code extension:
  \<^item> \<^verbatim>\<open>src/src/extension.ts\<close> (called v1 below): the search paths of the configuration are
    directories below the workspace root, each walked recursively;
  \<^item> \<^verbatim>\<open>src/unnamed/part_000\<close> (called v2 below): the search paths are glob patterns handed to
    \<^verbatim>\<open>vscode.workspace.findFiles\<close>, with the recursive walk as the fallback for an empty list.

  Both register one command handler. The embedding makes the world the handler reads explicit (the
  file system, the host's configuration, workspace folders and glob resolver), returns what the
  handler shows to the user as a value of type \<open>outcome\<close>, and records every access to the file
  system and every message to the progress sink or the console as a list of events, in the order
  the handler performs them.
\<close>

subsection \<open>Bytes, strings and paths\<close>

type_synonym byte = "8 word"
type_synonym bytes = "byte list"

text \<open>
  A path is the list of its components below the file system root, so \<^verbatim>\<open>/ws/img/a.png\<close> is
  \<open>[''ws'', ''img'', ''a.png'']\<close>: the normalised POSIX paths that \<^verbatim>\<open>path.join\<close> produces from an
  absolute directory, and that \<^verbatim>\<open>uri.fsPath\<close> holds. Two such paths are equal as strings exactly
  when their component lists are equal.
\<close>

type_synonym path = "string list"

text \<open>\<^verbatim>\<open>String.prototype.toLowerCase\<close>, on the ASCII letters (a \<open>char\<close> is a byte).\<close>

definition toLowerCase_char :: "char \<Rightarrow> char" where
  "toLowerCase_char c =
     (case map_of (zip ''ABCDEFGHIJKLMNOPQRSTUVWXYZ'' ''abcdefghijklmnopqrstuvwxyz'') c of
        None \<Rightarrow> c
      | Some l \<Rightarrow> l)"

definition toLowerCase :: "string \<Rightarrow> string" where
  "toLowerCase s = map toLowerCase_char s"

text \<open>\<^verbatim>\<open>name.startsWith('.')\<close>.\<close>

fun startsWith_dot :: "string \<Rightarrow> bool" where
  "startsWith_dot [] = False"
| "startsWith_dot (c # cs) = (c = CHR ''.'')"

text \<open>
  \<^verbatim>\<open>path.extname\<close> of Node.js on one path component: the text from the last dot on, and the
  empty string when the component has no dot, when its only dot is its first character, or when
  it is \<^verbatim>\<open>..\<close>.
\<close>

definition extname :: "string \<Rightarrow> string" where
  "extname name =
     (let after = rev (takeWhile (\<lambda>c. c \<noteq> CHR ''.'') (rev name)) in
      if length after = length name then ''''
      else
        let startDot = length name - length after - 1 in
        if startDot = 0 then ''''
        else if name = ''..'' then ''''
        else drop startDot name)"

text \<open>\<^verbatim>\<open>path.extname\<close> of a whole path looks at the last component only.\<close>

definition extname_path :: "path \<Rightarrow> string" where
  "extname_path p = (if p = [] then '''' else extname (last p))"

text \<open>Splitting a configured string at \<^verbatim>\<open>/\<close>.\<close>

fun split_path :: "string \<Rightarrow> string list" where
  "split_path [] = [[]]"
| "split_path (c # cs) =
     (if c = CHR ''/'' then [] # split_path cs
      else (case split_path cs of [] \<Rightarrow> [[c]] | x # xs \<Rightarrow> (c # x) # xs))"

text \<open>
  \<^verbatim>\<open>path.join(base, p)\<close> for an absolute, normalised \<open>base\<close>: empty components and \<^verbatim>\<open>.\<close> are
  dropped, \<^verbatim>\<open>..\<close> removes the component before it and stays at the root.
\<close>

fun normalize_onto :: "path \<Rightarrow> string list \<Rightarrow> path" where
  "normalize_onto base [] = base"
| "normalize_onto base (c # cs) =
     (if c = '''' \<or> c = ''.'' then normalize_onto base cs
      else if c = ''..'' then normalize_onto (butlast base) cs
      else normalize_onto (base @ [c]) cs)"

definition path_join :: "path \<Rightarrow> string \<Rightarrow> path" where
  "path_join base p = normalize_onto base (split_path p)"

text \<open>\<^verbatim>\<open>path.relative(from, to)\<close> on normalised absolute paths.\<close>

fun path_relative :: "path \<Rightarrow> path \<Rightarrow> path" where
  "path_relative [] bs = bs"
| "path_relative (a # as) [] = replicate (length (a # as)) ''..''"
| "path_relative (a # as) (b # bs) =
     (if a = b then path_relative as bs else replicate (length (a # as)) ''..'' @ (b # bs))"

subsection \<open>The digest: MD5 as Node's \<^verbatim>\<open>crypto\<close> module computes it (RFC 1321)\<close>

text \<open>
  \<^verbatim>\<open>crypto.createHash('md5')\<close> is a library call; its result is fixed by RFC 1321, which the
  definitions below follow: the sine table, the shift amounts, the four round functions, the
  padding with the message length in bits, and the little-endian output.
\<close>

definition md5_K :: "32 word list" where
  "md5_K = [
    0xd76aa478, 0xe8c7b756, 0x242070db, 0xc1bdceee, 0xf57c0faf, 0x4787c62a, 0xa8304613, 0xfd469501,
    0x698098d8, 0x8b44f7af, 0xffff5bb1, 0x895cd7be, 0x6b901122, 0xfd987193, 0xa679438e, 0x49b40821,
    0xf61e2562, 0xc040b340, 0x265e5a51, 0xe9b6c7aa, 0xd62f105d, 0x02441453, 0xd8a1e681, 0xe7d3fbc8,
    0x21e1cde6, 0xc33707d6, 0xf4d50d87, 0x455a14ed, 0xa9e3e905, 0xfcefa3f8, 0x676f02d9, 0x8d2a4c8a,
    0xfffa3942, 0x8771f681, 0x6d9d6122, 0xfde5380c, 0xa4beea44, 0x4bdecfa9, 0xf6bb4b60, 0xbebfbc70,
    0x289b7ec6, 0xeaa127fa, 0xd4ef3085, 0x04881d05, 0xd9d4d039, 0xe6db99e5, 0x1fa27cf8, 0xc4ac5665,
    0xf4292244, 0x432aff97, 0xab9423a7, 0xfc93a039, 0x655b59c3, 0x8f0ccc92, 0xffeff47d, 0x85845dd1,
    0x6fa87e4f, 0xfe2ce6e0, 0xa3014314, 0x4e0811a1, 0xf7537e82, 0xbd3af235, 0x2ad7d2bb, 0xeb86d391]"

definition md5_S :: "nat list" where
  "md5_S = [7, 12, 17, 22, 7, 12, 17, 22, 7, 12, 17, 22, 7, 12, 17, 22,
            5, 9, 14, 20, 5, 9, 14, 20, 5, 9, 14, 20, 5, 9, 14, 20,
            4, 11, 16, 23, 4, 11, 16, 23, 4, 11, 16, 23, 4, 11, 16, 23,
            6, 10, 15, 21, 6, 10, 15, 21, 6, 10, 15, 21, 6, 10, 15, 21]"

type_synonym md5_state = "32 word \<times> 32 word \<times> 32 word \<times> 32 word"

definition md5_init :: md5_state where
  "md5_init = (0x67452301, 0xefcdab89, 0x98badcfe, 0x10325476)"

definition md5_F :: "nat \<Rightarrow> 32 word \<Rightarrow> 32 word \<Rightarrow> 32 word \<Rightarrow> 32 word" where
  "md5_F i b c d =
     (if i < 16 then (b AND c) OR (NOT b AND d)
      else if i < 32 then (d AND b) OR (NOT d AND c)
      else if i < 48 then b XOR c XOR d
      else c XOR (b OR NOT d))"

definition md5_g :: "nat \<Rightarrow> nat" where
  "md5_g i =
     (if i < 16 then i
      else if i < 32 then (5 * i + 1) mod 16
      else if i < 48 then (3 * i + 5) mod 16
      else (7 * i) mod 16)"

definition md5_step :: "32 word list \<Rightarrow> md5_state \<Rightarrow> nat \<Rightarrow> md5_state" where
  "md5_step m st i =
     (case st of (a, b, c, d) \<Rightarrow>
        let f = md5_F i b c d + a + md5_K ! i + m ! md5_g i
        in (d, b + word_rotl (md5_S ! i) f, b, c))"

definition word_of_le_bytes :: "bytes \<Rightarrow> 32 word" where
  "word_of_le_bytes bs = foldr (\<lambda>b w. push_bit 8 w OR ucast b) bs 0"

fun chunks_of :: "nat \<Rightarrow> 'a list \<Rightarrow> 'a list list" where
  "chunks_of n [] = []"
| "chunks_of n (x # xs) =
     (if n = 0 then [] else take n (x # xs) # chunks_of n (drop n (x # xs)))"

definition md5_block :: "md5_state \<Rightarrow> bytes \<Rightarrow> md5_state" where
  "md5_block st blk =
     (let m = map word_of_le_bytes (chunks_of 4 blk) in
      case st of (a0, b0, c0, d0) \<Rightarrow>
        (case foldl (md5_step m) st [0..<64] of (a, b, c, d) \<Rightarrow>
           (a0 + a, b0 + b, c0 + c, d0 + d)))"

definition le_bytes_of_word :: "nat \<Rightarrow> 'a::len word \<Rightarrow> bytes" where
  "le_bytes_of_word n w = map (\<lambda>k. ucast (drop_bit (8 * k) w)) [0..<n]"

definition md5_pad :: "bytes \<Rightarrow> bytes" where
  "md5_pad msg =
     msg @ [0x80] @ replicate ((55 + 64 - length msg mod 64) mod 64) 0
       @ le_bytes_of_word 8 (word_of_nat (8 * length msg) :: 64 word)"

definition md5_digest :: "bytes \<Rightarrow> bytes" where
  "md5_digest msg =
     (case foldl md5_block md5_init (chunks_of 64 (md5_pad msg)) of (a, b, c, d) \<Rightarrow>
        concat (map (le_bytes_of_word 4) [a, b, c, d]))"

text \<open>\<^verbatim>\<open>digest('hex')\<close>: two lower-case hexadecimal digits for each byte.\<close>

definition hex_digit :: "nat \<Rightarrow> char" where
  "hex_digit n = ''0123456789abcdef'' ! (n mod 16)"

definition hex_of_byte :: "byte \<Rightarrow> string" where
  "hex_of_byte b = [hex_digit (unat b div 16), hex_digit (unat b mod 16)]"

definition hex_of_bytes :: "bytes \<Rightarrow> string" where
  "hex_of_bytes bs = concat (map hex_of_byte bs)"

text \<open>
  The \<^verbatim>\<open>Hash\<close> object: \<^verbatim>\<open>update\<close> appends a chunk to what was fed so far, \<^verbatim>\<open>digest('hex')\<close>
  is the MD5 of all of it.
\<close>

definition createHash :: bytes where
  "createHash = []"

definition hash_update :: "bytes \<Rightarrow> bytes \<Rightarrow> bytes" where
  "hash_update h chunk = h @ chunk"

definition hash_digest_hex :: "bytes \<Rightarrow> string" where
  "hash_digest_hex h = hex_of_bytes (md5_digest h)"

subsection \<open>The world the handler reads\<close>

text \<open>
  The file system is a tree. A regular file carries what a read stream on it delivers: the
  chunks of its \<^verbatim>\<open>data\<close> events, and whether the stream then ends (\<open>True\<close>) or emits
  \<^verbatim>\<open>error\<close> (\<open>False\<close>). A directory carries its entries in \<^verbatim>\<open>readdir\<close> order and whether
  \<^verbatim>\<open>readdir\<close> on it succeeds. \<open>Special\<close> is an entry for which both \<^verbatim>\<open>isFile()\<close> and
  \<^verbatim>\<open>isDirectory()\<close> of its \<^verbatim>\<open>Dirent\<close> are false (a symbolic link, a socket, a device); it can
  still be opened and read. Directories form a tree because the walk never follows links.
\<close>

datatype fsnode =
    File "bytes list" bool
  | Dir "(string \<times> fsnode) list" bool
  | Special "bytes list" bool

fun lookup :: "fsnode \<Rightarrow> path \<Rightarrow> fsnode option" where
  "lookup n [] = Some n"
| "lookup (Dir es r) (c # cs) =
     (case map_of es c of None \<Rightarrow> None | Some n \<Rightarrow> lookup n cs)"
| "lookup (File chunks ok) (c # cs) = None"
| "lookup (Special chunks ok) (c # cs) = None"

text \<open>
  \<open>findFiles include exclude\<close> is \<^verbatim>\<open>vscode.workspace.findFiles\<close>: the paths the host resolves
  the include pattern to, or \<open>None\<close> when the call rejects. The configuration entries are
  \<open>None\<close> when \<^verbatim>\<open>config.get\<close> returns \<^verbatim>\<open>undefined\<close>; \<open>workspaceFolders\<close> likewise.
\<close>

record world =
  fs_root :: fsnode
  findFiles :: "string \<Rightarrow> string \<Rightarrow> path list option"
  workspaceFolders :: "path list option"
  activeTextEditor :: "path option"
  cfg_imageExtensions :: "string list option"
  cfg_searchPaths :: "string list option"

record ImageInfo =
  filePath :: path
  md5 :: string
  relativePath :: path

datatype progress_message =
    ComputingMD5
  | ScanningFiles
  | MatchingDuplicates
  | Scanned path

datatype error_log =
    Md5Failed path
  | ScanDirFailed path
  | PatternFailed string

datatype event =
    ExistsSync path
  | CreateReadStream path
  | Readdir path
  | FindFiles string string
  | ProgressReport progress_message
  | ConsoleError error_log

text \<open>
  What the handler shows: an error message (\<open>NoSelection\<close> and \<open>NotAnImage\<close> carry the same text
  in the source, \<open>IOError\<close> is the message of the handler's \<^verbatim>\<open>catch\<close>), an information message
  (\<open>NoneFound\<close>, \<open>OnlySelfFound\<close>), or the quick pick with its items.
\<close>

datatype outcome =
    NoSelection
  | FileNotFound
  | NotAnImage
  | NoWorkspace
  | IOError
  | NoneFound
  | OnlySelfFound
  | DuplicatesFound "ImageInfo list"

definition existsSync :: "world \<Rightarrow> path \<Rightarrow> bool" where
  "existsSync w p = (lookup (fs_root w) p \<noteq> None)"

definition default_imageExtensions :: "string list" where
  "default_imageExtensions = [''.png'', ''.jpg'', ''.jpeg'', ''.gif'', ''.bmp'', ''.webp'']"

text \<open>\<^verbatim>\<open>config.get('imageExtensions') || [...]\<close> and \<^verbatim>\<open>config.get('searchPaths') || []\<close>.\<close>

definition imageExtensions :: "world \<Rightarrow> string list" where
  "imageExtensions w =
     (case cfg_imageExtensions w of None \<Rightarrow> default_imageExtensions | Some e \<Rightarrow> e)"

definition searchPaths :: "world \<Rightarrow> string list" where
  "searchPaths w = (case cfg_searchPaths w of None \<Rightarrow> [] | Some ps \<Rightarrow> ps)"

subsection \<open>The content hasher\<close>

text \<open>
  \<^verbatim>\<open>calculateMD5\<close>: every chunk of the stream goes through \<^verbatim>\<open>hash.update\<close>; the promise
  resolves with the hex digest on \<^verbatim>\<open>end\<close> (\<open>Some\<close>) and rejects on \<^verbatim>\<open>error\<close> (\<open>None\<close>), which
  is also what opening a missing path or a directory gives.
\<close>

definition readStream :: "fsnode option \<Rightarrow> (bytes list \<times> bool)" where
  "readStream n =
     (case n of
        Some (File chunks ok) \<Rightarrow> (chunks, ok)
      | Some (Special chunks ok) \<Rightarrow> (chunks, ok)
      | Some (Dir es r) \<Rightarrow> ([], False)
      | None \<Rightarrow> ([], False))"

definition calculateMD5 :: "world \<Rightarrow> path \<Rightarrow> string option" where
  "calculateMD5 w p =
     (case readStream (lookup (fs_root w) p) of (chunks, ok) \<Rightarrow>
        let hash = foldl hash_update createHash chunks in
        if ok then Some (hash_digest_hex hash) else None)"

subsection \<open>The tree walker\<close>

text \<open>
  A step of a scan returns the records it pushed onto \<^verbatim>\<open>images\<close> and the events it caused.
  \<open>and_then\<close> runs two steps one after the other.
\<close>

type_synonym scan_result = "ImageInfo list \<times> event list"

definition and_then :: "scan_result \<Rightarrow> scan_result \<Rightarrow> scan_result" where
  "and_then r1 r2 = (fst r1 @ fst r2, snd r1 @ snd r2)"

text \<open>
  The inner \<^verbatim>\<open>try\<close> block, which all three loops hold: hash the file, push its record and
  report progress; on a rejected hash, log and push nothing.
\<close>

definition tryHashFile :: "world \<Rightarrow> path \<Rightarrow> path \<Rightarrow> scan_result" where
  "tryHashFile w base file =
     (case calculateMD5 w file of
        Some h \<Rightarrow>
          ([\<lparr>filePath = file, md5 = h, relativePath = path_relative base file\<rparr>],
           [CreateReadStream file, ProgressReport (Scanned (path_relative base file))])
      | None \<Rightarrow> ([], [CreateReadStream file, ConsoleError (Md5Failed file)]))"

text \<open>
  \<^verbatim>\<open>scanDirectory\<close> and its loop over the entries (\<open>scanEntries\<close>). The two revisions hold
  the same text for it. The node of \<open>dirPath\<close> is passed along with the path, so that the recursion
  follows the tree; \<^verbatim>\<open>readdir\<close> fails on anything that is not a readable directory, and the
  \<^verbatim>\<open>catch\<close> around the loop logs it. A file is hashed through its path, as in the source; in
  a tree whose directories hold each name once, the path of an entry leads to the entry's own
  node (\<open>lookup_entry\<close> below). \<open>exts\<close> is \<^verbatim>\<open>normalizedExtensions\<close>.
\<close>

fun scanDirectory :: "world \<Rightarrow> string list \<Rightarrow> path \<Rightarrow> path \<Rightarrow> fsnode \<Rightarrow> scan_result"
  and scanEntries ::
    "world \<Rightarrow> string list \<Rightarrow> path \<Rightarrow> path \<Rightarrow> (string \<times> fsnode) list \<Rightarrow> scan_result"
where
  "scanDirectory w exts rootPath dirPath (Dir es readable) =
     (if readable then
        and_then ([], [Readdir dirPath]) (scanEntries w exts rootPath dirPath es)
      else ([], [Readdir dirPath, ConsoleError (ScanDirFailed dirPath)]))"
| "scanDirectory w exts rootPath dirPath (File chunks ok) =
     ([], [Readdir dirPath, ConsoleError (ScanDirFailed dirPath)])"
| "scanDirectory w exts rootPath dirPath (Special chunks ok) =
     ([], [Readdir dirPath, ConsoleError (ScanDirFailed dirPath)])"
| "scanEntries w exts rootPath dirPath [] = ([], [])"
| "scanEntries w exts rootPath dirPath ((name, n) # rest) =
     (let fullPath = dirPath @ [name] in
      if name = ''node_modules'' \<or> startsWith_dot name then
        scanEntries w exts rootPath dirPath rest
      else
        and_then
          (case n of
             Dir es readable \<Rightarrow> scanDirectory w exts rootPath fullPath n
           | File chunks ok \<Rightarrow>
               if toLowerCase (extname name) \<in> set exts then tryHashFile w rootPath fullPath
               else ([], [])
           | Special chunks ok \<Rightarrow> ([], []))
          (scanEntries w exts rootPath dirPath rest))"

text \<open>
  \<^verbatim>\<open>scanImageFiles\<close> (v1): lower-case the extensions, walk from \<open>rootPath\<close>. A root that is not
  there makes \<^verbatim>\<open>readdir\<close> throw, like a root that is not a directory (a root that is a
  symbolic link to a directory is outside this model).
\<close>

definition scanImageFiles :: "world \<Rightarrow> string list \<Rightarrow> path \<Rightarrow> scan_result" where
  "scanImageFiles w extensions rootPath =
     (let normalizedExtensions = map toLowerCase extensions in
      case lookup (fs_root w) rootPath of
        None \<Rightarrow> ([], [Readdir rootPath, ConsoleError (ScanDirFailed rootPath)])
      | Some n \<Rightarrow> scanDirectory w normalizedExtensions rootPath rootPath n)"

text \<open>\<^verbatim>\<open>scanImageFilesDefault\<close> (v2): the same walk, with the extensions of the configuration.\<close>

definition scanImageFilesDefault :: "world \<Rightarrow> path \<Rightarrow> scan_result" where
  "scanImageFilesDefault w rootPath = scanImageFiles w (imageExtensions w) rootPath"

text \<open>
  \<^verbatim>\<open>scanImageFilesWithGlob\<close> (v2): the loop over the files one pattern resolved to
  (\<open>scanFoundFiles\<close>) inside the loop over the patterns (\<open>scanPatterns\<close>).
\<close>

definition node_modules_exclude :: string where
  "node_modules_exclude = ''**/node_modules/**''"

fun scanFoundFiles :: "world \<Rightarrow> string list \<Rightarrow> path \<Rightarrow> path list \<Rightarrow> scan_result" where
  "scanFoundFiles w exts workspaceRoot [] = ([], [])"
| "scanFoundFiles w exts workspaceRoot (file # rest) =
     (if toLowerCase (extname_path file) \<notin> set exts then
        scanFoundFiles w exts workspaceRoot rest
      else
        and_then (tryHashFile w workspaceRoot file) (scanFoundFiles w exts workspaceRoot rest))"

fun scanPatterns :: "world \<Rightarrow> string list \<Rightarrow> path \<Rightarrow> string list \<Rightarrow> scan_result" where
  "scanPatterns w exts workspaceRoot [] = ([], [])"
| "scanPatterns w exts workspaceRoot (pattern # rest) =
     and_then
       (case findFiles w pattern node_modules_exclude of
          None \<Rightarrow>
            ([], [FindFiles pattern node_modules_exclude, ConsoleError (PatternFailed pattern)])
        | Some files \<Rightarrow>
            and_then ([], [FindFiles pattern node_modules_exclude])
              (scanFoundFiles w exts workspaceRoot files))
       (scanPatterns w exts workspaceRoot rest)"

definition scanImageFilesWithGlob :: "world \<Rightarrow> string list \<Rightarrow> path \<Rightarrow> scan_result" where
  "scanImageFilesWithGlob w globPatterns workspaceRoot =
     (if length globPatterns = 0 then scanImageFilesDefault w workspaceRoot
      else scanPatterns w (map toLowerCase (imageExtensions w)) workspaceRoot globPatterns)"

text \<open>
  The loop of v1 over its search roots: a root is walked when \<^verbatim>\<open>fs.existsSync\<close> finds it.
\<close>

fun scanSearchRoots :: "world \<Rightarrow> string list \<Rightarrow> path list \<Rightarrow> scan_result" where
  "scanSearchRoots w extensions [] = ([], [])"
| "scanSearchRoots w extensions (searchRoot # rest) =
     and_then
       (if existsSync w searchRoot then
          and_then ([], [ExistsSync searchRoot]) (scanImageFiles w extensions searchRoot)
        else ([], [ExistsSync searchRoot]))
       (scanSearchRoots w extensions rest)"

subsection \<open>Lookup, filtering and the outcome\<close>

definition findDuplicates :: "string \<Rightarrow> ImageInfo list \<Rightarrow> ImageInfo list" where
  "findDuplicates targetMD5 allImages = filter (\<lambda>img. md5 img = targetMD5) allImages"

text \<open>
  \<^verbatim>\<open>showDuplicatesQuickPick\<close>: the items of the quick pick are the duplicates without the
  target, one item for each record, in order.
\<close>

definition showDuplicatesQuickPick :: "ImageInfo list \<Rightarrow> path \<Rightarrow> ImageInfo list" where
  "showDuplicatesQuickPick duplicates targetPath =
     filter (\<lambda>img. filePath img \<noteq> targetPath) duplicates"

text \<open>The end of the handler, from \<^verbatim>\<open>findDuplicates\<close> on; the same in both revisions.\<close>

definition reportDuplicates :: "string \<Rightarrow> path \<Rightarrow> ImageInfo list \<Rightarrow> outcome" where
  "reportDuplicates targetMD5 targetPath allImages =
     (let duplicates = findDuplicates targetMD5 allImages in
      if length duplicates = 0 then NoneFound
      else
        let otherDuplicates = filter (\<lambda>img. filePath img \<noteq> targetPath) duplicates in
        if length otherDuplicates = 0 then OnlySelfFound
        else DuplicatesFound (showDuplicatesQuickPick duplicates targetPath))"

subsection \<open>The command handler, in its two revisions\<close>

definition target_of :: "world \<Rightarrow> path option \<Rightarrow> path option" where
  "target_of w uri = (case uri of None \<Rightarrow> activeTextEditor w | Some u \<Rightarrow> Some u)"

definition searchRoots_v1 :: "world \<Rightarrow> path \<Rightarrow> path list" where
  "searchRoots_v1 w workspaceRoot =
     (if length (searchPaths w) > 0 then map (path_join workspaceRoot) (searchPaths w)
      else [workspaceRoot])"

text \<open>
  v1 (\<^verbatim>\<open>src/src/extension.ts\<close>): existence, extension, hash of the target, workspace, walk of
  the search roots, outcome.
\<close>

type_synonym handler_result = "outcome \<times> event list"

definition checkDuplicates_v1 :: "world \<Rightarrow> path option \<Rightarrow> handler_result" where
  "checkDuplicates_v1 w uri =
     (case target_of w uri of
        None \<Rightarrow> (NoSelection, [])
      | Some targetPath \<Rightarrow>
          if \<not> existsSync w targetPath then (FileNotFound, [ExistsSync targetPath])
          else if toLowerCase (extname_path targetPath) \<notin> set (imageExtensions w) then
            (NotAnImage, [ExistsSync targetPath])
          else
            (case calculateMD5 w targetPath of
               None \<Rightarrow> (IOError, [ExistsSync targetPath, CreateReadStream targetPath])
             | Some targetMD5 \<Rightarrow>
                 (case workspaceFolders w of
                    None \<Rightarrow> (NoWorkspace, [ExistsSync targetPath, CreateReadStream targetPath])
                  | Some [] \<Rightarrow>
                      (NoWorkspace, [ExistsSync targetPath, CreateReadStream targetPath])
                  | Some (workspaceRoot # others) \<Rightarrow>
                      (case scanSearchRoots w (imageExtensions w)
                              (searchRoots_v1 w workspaceRoot) of
                         (allImages, evs) \<Rightarrow>
                           (reportDuplicates targetMD5 targetPath allImages,
                            [ExistsSync targetPath, CreateReadStream targetPath] @ evs)))))"

text \<open>
  v2 (\<^verbatim>\<open>src/unnamed/part_000\<close>): existence, extension, workspace, then under one progress
  notification the hash of the target, the scan and the outcome.
\<close>

definition checkDuplicates_v2 :: "world \<Rightarrow> path option \<Rightarrow> handler_result" where
  "checkDuplicates_v2 w uri =
     (case target_of w uri of
        None \<Rightarrow> (NoSelection, [])
      | Some targetPath \<Rightarrow>
          if \<not> existsSync w targetPath then (FileNotFound, [ExistsSync targetPath])
          else if toLowerCase (extname_path targetPath) \<notin> set (imageExtensions w) then
            (NotAnImage, [ExistsSync targetPath])
          else
            (case workspaceFolders w of
               None \<Rightarrow> (NoWorkspace, [ExistsSync targetPath])
             | Some [] \<Rightarrow> (NoWorkspace, [ExistsSync targetPath])
             | Some (workspaceRoot # others) \<Rightarrow>
                 (case calculateMD5 w targetPath of
                    None \<Rightarrow>
                      (IOError,
                       [ExistsSync targetPath, ProgressReport ComputingMD5,
                        CreateReadStream targetPath])
                  | Some targetMD5 \<Rightarrow>
                      (case scanImageFilesWithGlob w (searchPaths w) workspaceRoot of
                         (allImages, evs) \<Rightarrow>
                           (reportDuplicates targetMD5 targetPath allImages,
                            [ExistsSync targetPath, ProgressReport ComputingMD5,
                             CreateReadStream targetPath, ProgressReport ScanningFiles]
                              @ evs @ [ProgressReport MatchingDuplicates])))))"

subsection \<open>The outcome as the specification words it\<close>

text \<open>
  The specification's resolve-outcome phase: \<open>matches\<close> are the records with the target's
  fingerprint, \<open>others\<close> are the matches whose path is not the target's.
\<close>

definition spec_matches :: "string \<Rightarrow> ImageInfo list \<Rightarrow> ImageInfo list" where
  "spec_matches fingerprint records = filter (\<lambda>r. md5 r = fingerprint) records"

definition spec_others :: "path \<Rightarrow> ImageInfo list \<Rightarrow> ImageInfo list" where
  "spec_others target matches = filter (\<lambda>r. filePath r \<noteq> target) matches"

definition spec_outcome :: "string \<Rightarrow> path \<Rightarrow> ImageInfo list \<Rightarrow> outcome" where
  "spec_outcome fingerprint target records =
     (let matches = spec_matches fingerprint records;
          others = spec_others target matches
      in if matches = [] then NoneFound
         else if others = [] then OnlySelfFound
         else DuplicatesFound others)"

subsection \<open>Paths below a walked root\<close>

text \<open>
  \<open>clean_below dir p\<close>: the path \<open>p\<close> lies below \<open>dir\<close>, and no component of it below \<open>dir\<close>
  is \<^verbatim>\<open>node_modules\<close> or starts with a dot.
\<close>

definition clean_below :: "path \<Rightarrow> path \<Rightarrow> bool" where
  "clean_below dir p =
     (length dir < length p \<and> take (length dir) p = dir \<and>
      (\<forall>c \<in> set (drop (length dir) p). c \<noteq> ''node_modules'' \<and> \<not> startsWith_dot c))"

subsection \<open>The files a scan can reach\<close>

text \<open>
  \<open>reachable_file n q\<close>: below the directory \<open>n\<close>, the relative path \<open>q\<close> leads to a regular
  file, through directories that can be listed, and no name on the way (the file's own name
  included) is \<^verbatim>\<open>node_modules\<close> or starts with a dot.
\<close>

inductive reachable_file :: "fsnode \<Rightarrow> path \<Rightarrow> bool" where
  here: "(name, File chunks ok) \<in> set es \<Longrightarrow> name \<noteq> ''node_modules'' \<Longrightarrow>
           \<not> startsWith_dot name \<Longrightarrow> reachable_file (Dir es True) [name]"
| below: "(name, d) \<in> set es \<Longrightarrow> name \<noteq> ''node_modules'' \<Longrightarrow> \<not> startsWith_dot name \<Longrightarrow>
            reachable_file d q \<Longrightarrow> reachable_file (Dir es True) (name # q)"

code_pred reachable_file .

text \<open>The files a scan opened for hashing, read off its trace.\<close>

definition accepted_files :: "event list \<Rightarrow> path set" where
  "accepted_files evs = {p. CreateReadStream p \<in> set evs}"

text \<open>
  The image files of a tree (by extension, among the reachable files) and the image files among
  what the resolver returns for the configured patterns.
\<close>

definition image_files_below :: "string list \<Rightarrow> path \<Rightarrow> fsnode \<Rightarrow> path set" where
  "image_files_below exts dir n =
     {dir @ q | q. reachable_file n q \<and> toLowerCase (extname (last q)) \<in> set exts}"

definition image_files_found :: "world \<Rightarrow> string list \<Rightarrow> string list \<Rightarrow> path set" where
  "image_files_found w exts patterns =
     {f. \<exists>pattern files. pattern \<in> set patterns \<and>
           findFiles w pattern node_modules_exclude = Some files \<and> f \<in> set files \<and>
           toLowerCase (extname_path f) \<in> set exts}"

subsection \<open>Reading a trace\<close>

text \<open>
  The calls of the resolver (include pattern, exclusion pattern) and the directories listed, in
  the order of the trace.
\<close>

fun findFiles_calls :: "event list \<Rightarrow> (string \<times> string) list" where
  "findFiles_calls [] = []"
| "findFiles_calls (FindFiles pattern exclude # evs) = (pattern, exclude) # findFiles_calls evs"
| "findFiles_calls (e # evs) = findFiles_calls evs"

fun readdir_calls :: "event list \<Rightarrow> path list" where
  "readdir_calls [] = []"
| "readdir_calls (Readdir p # evs) = p # readdir_calls evs"
| "readdir_calls (e # evs) = readdir_calls evs"

subsection \<open>Fixtures\<close>

text \<open>
  A world around a file system tree: one workspace folder \<^verbatim>\<open>/ws\<close>, a glob resolver that
  finds nothing, and a configuration left at its defaults.
\<close>

definition fixture :: "fsnode \<Rightarrow> world" where
  "fixture root =
     \<lparr>fs_root = root, findFiles = (\<lambda>pattern exclude. Some []),
      workspaceFolders = Some [[''ws'']], activeTextEditor = None,
      cfg_imageExtensions = None, cfg_searchPaths = None\<rparr>"

text \<open>
  The target \<^verbatim>\<open>/ws/a.png\<close> holds the bytes \<open>ab\<close>, delivered in two chunks;
  \<^verbatim>\<open>/ws/img/b.png\<close> is a copy of it and \<^verbatim>\<open>/ws/img/c.png\<close> holds \<open>ba\<close>.
\<close>

definition copies_tree :: fsnode where
  "copies_tree =
     Dir [(''ws'', Dir [(''a.png'', File [[0x61], [0x62]] True),
                        (''img'', Dir [(''b.png'', File [[0x61, 0x62]] True),
                                       (''c.png'', File [[0x62, 0x61]] True)] True)] True)] True"

text \<open>
  A workspace with trouble in it: \<^verbatim>\<open>torn.png\<close> fails while it is read, \<^verbatim>\<open>locked\<close> cannot
  be listed, \<^verbatim>\<open>notes.txt\<close> is no image; \<^verbatim>\<open>a.png\<close> and \<^verbatim>\<open>img/b.png\<close> hold the same bytes.
\<close>

definition faulty_tree :: fsnode where
  "faulty_tree =
     Dir [(''ws'', Dir [(''a.png'', File [[0x61, 0x62]] True),
                        (''torn.png'', File [[0x61]] False),
                        (''locked'', Dir [(''d.png'', File [[0x61, 0x62]] True)] False),
                        (''img'', Dir [(''b.png'', File [[0x61, 0x62]] True)] True),
                        (''notes.txt'', File [[0x61, 0x62]] True)] True)] True"

text \<open>
  A workspace with hidden entries: a dot-prefixed image \<^verbatim>\<open>.icon.png\<close>, a dot-prefixed directory
  \<^verbatim>\<open>.cache\<close> and a \<^verbatim>\<open>node_modules\<close> directory, each holding a copy of \<^verbatim>\<open>a.png\<close>; \<^verbatim>\<open>docs\<close>
  holds a text file and a copy with an upper-case extension; \<^verbatim>\<open>link.png\<close> is a symbolic link.
\<close>

definition hidden_tree :: fsnode where
  "hidden_tree =
     Dir [(''ws'', Dir [(''a.png'', File [[0x61, 0x62]] True),
                        (''.icon.png'', File [[0x61, 0x62]] True),
                        (''.cache'', Dir [(''a.png'', File [[0x61, 0x62]] True)] True),
                        (''node_modules'',
                           Dir [(''pkg'', Dir [(''logo.png'', File [[0x61, 0x62]] True)] True)] True),
                        (''docs'', Dir [(''readme.md'', File [[0x62, 0x61]] True),
                                        (''B.PNG'', File [[0x61], [0x62]] True)] True),
                        (''link.png'', Special [[0x61, 0x62]] True)] True)] True"

text \<open>
  The same workspace with three patterns configured and a resolver for them. The resolver leaves
  out what is below \<^verbatim>\<open>node_modules\<close> when it is asked to; it returns a text file for
  \<^verbatim>\<open>docs/**\<close>, a file that is gone when it is read, and it rejects the malformed pattern.
\<close>

definition glob_world :: world where
  "glob_world =
     (fixture hidden_tree)\<lparr>
        findFiles := (\<lambda>pattern exclude.
          if pattern = ''**/*.png'' then
            Some ([[''ws'', ''a.png''], [''ws'', ''.cache'', ''a.png''], [''ws'', ''gone.png'']]
              @ (if exclude = ''**/node_modules/**'' then []
                 else [[''ws'', ''node_modules'', ''pkg'', ''logo.png'']]))
          else if pattern = ''docs/**'' then
            Some [[''ws'', ''docs'', ''readme.md''], [''ws'', ''docs'', ''B.PNG'']]
          else if pattern = ''{broken'' then None
          else Some []),
        cfg_searchPaths := Some [''**/*.png'', ''{broken'', ''docs/**'']\<rparr>"

text \<open>The workspace of \<open>copies_tree\<close> with the search path \<^verbatim>\<open>img\<close> configured.\<close>

definition literal_dirs_world :: world where
  "literal_dirs_world = (fixture copies_tree)\<lparr>cfg_searchPaths := Some [''img'']\<rparr>"

section \<open>Properties\<close>

subsection \<open>Paths and nodes\<close>

lemma lookup_append:
  "lookup n (p @ q) = (case lookup n p of None \<Rightarrow> None | Some m \<Rightarrow> lookup m q)"
  by (induction n p rule: lookup.induct) (simp_all split: option.splits)

lemma lookup_entry:
  assumes "lookup root dir = Some (Dir es readable)" and "distinct (map fst es)"
    and "(name, n) \<in> set es"
  shows "lookup root (dir @ [name]) = Some n"
  using assms by (simp add: lookup_append)

subsection \<open>The content hasher\<close>

lemma foldl_hash_update: "foldl hash_update h chunks = h @ concat chunks"
  by (induction chunks arbitrary: h) (simp_all add: hash_update_def)

lemma length_md5_digest: "length (md5_digest msg) = 16"
  by (simp add: md5_digest_def le_bytes_of_word_def split: prod.splits)

lemma length_hex_of_bytes: "length (hex_of_bytes bs) = 2 * length bs"
  by (induction bs) (simp_all add: hex_of_bytes_def hex_of_byte_def)

lemma length_hash_digest_hex: "length (hash_digest_hex h) = 32"
  by (simp add: hash_digest_hex_def length_hex_of_bytes length_md5_digest)

lemma hex_digit_in: "hex_digit n \<in> set ''0123456789abcdef''"
  unfolding hex_digit_def by (rule nth_mem) simp

lemma set_hex_of_bytes: "set (hex_of_bytes bs) \<subseteq> set ''0123456789abcdef''"
proof (induction bs)
  case Nil
  show ?case by (simp add: hex_of_bytes_def)
next
  case (Cons b bs)
  have "set (hex_of_byte b) \<subseteq> set ''0123456789abcdef''"
    using hex_digit_in [of "unat b div 16"] hex_digit_in [of "unat b mod 16"]
    unfolding hex_of_byte_def by simp
  with Cons show ?case
    unfolding hex_of_bytes_def by simp
qed

lemma digest_ab_ba: "hash_digest_hex [0x61, 0x62] \<noteq> hash_digest_hex [0x62, 0x61]"
  by code_simp

lemma calculateMD5_readable:
  "readStream (lookup (fs_root w) p) = (chunks, True) \<Longrightarrow>
     calculateMD5 w p = Some (hash_digest_hex (concat chunks))"
  by (simp add: calculateMD5_def foldl_hash_update createHash_def)

lemma calculateMD5_unreadable:
  "readStream (lookup (fs_root w) p) = (chunks, False) \<Longrightarrow> calculateMD5 w p = None"
  by (simp add: calculateMD5_def)

lemma calculateMD5_Some_digest:
  "calculateMD5 w p = Some h \<Longrightarrow> \<exists>content. h = hash_digest_hex content"
  by (auto simp: calculateMD5_def split: prod.splits if_splits)

text \<open>
  C8. The fingerprint is a function of the bytes of the file: two files whose streams deliver the
  same bytes, in whatever chunks and in whatever world, get the same fingerprint; a fingerprint
  has 32 characters, all lower-case hexadecimal digits; and the order of the bytes matters, as
  the streams \<open>ab\<close> and \<open>ba\<close> show.
\<close>

theorem calculateMD5_deterministic:
  "(readStream (lookup (fs_root w1) p1) = (chunks1, True) \<and>
    readStream (lookup (fs_root w2) p2) = (chunks2, True) \<and>
    concat chunks1 = concat chunks2 \<longrightarrow>
      calculateMD5 w1 p1 = Some (hash_digest_hex (concat chunks1)) \<and>
      calculateMD5 w2 p2 = calculateMD5 w1 p1) \<and>
   (calculateMD5 w p = Some h \<longrightarrow> length h = 32 \<and> set h \<subseteq> set ''0123456789abcdef'') \<and>
   calculateMD5 (fixture (Dir [(''f'', File [[0x61], [0x62]] True)] True)) [''f'']
     \<noteq> calculateMD5 (fixture (Dir [(''f'', File [[0x62], [0x61]] True)] True)) [''f'']"
proof (intro conjI impI)
  assume a: "readStream (lookup (fs_root w1) p1) = (chunks1, True) \<and>
    readStream (lookup (fs_root w2) p2) = (chunks2, True) \<and> concat chunks1 = concat chunks2"
  from a show "calculateMD5 w1 p1 = Some (hash_digest_hex (concat chunks1))"
    by (simp add: calculateMD5_readable)
  from a show "calculateMD5 w2 p2 = calculateMD5 w1 p1"
    by (simp add: calculateMD5_readable)
next
  assume "calculateMD5 w p = Some h"
  then obtain content where h: "h = hash_digest_hex content"
    using calculateMD5_Some_digest by blast
  show "length h = 32"
    by (simp add: h length_hash_digest_hex)
  show "set h \<subseteq> set ''0123456789abcdef''"
    unfolding h hash_digest_hex_def by (rule set_hex_of_bytes)
next
  have "calculateMD5 (fixture (Dir [(''f'', File [[0x61], [0x62]] True)] True)) [''f'']
      = Some (hash_digest_hex [0x61, 0x62])"
    by (rule trans [OF calculateMD5_readable [where chunks = "[[0x61], [0x62]]"]])
       (simp_all add: fixture_def readStream_def)
  moreover have "calculateMD5 (fixture (Dir [(''f'', File [[0x62], [0x61]] True)] True)) [''f'']
      = Some (hash_digest_hex [0x62, 0x61])"
    by (rule trans [OF calculateMD5_readable [where chunks = "[[0x62], [0x61]]"]])
       (simp_all add: fixture_def readStream_def)
  ultimately show "calculateMD5 (fixture (Dir [(''f'', File [[0x61], [0x62]] True)] True)) [''f'']
     \<noteq> calculateMD5 (fixture (Dir [(''f'', File [[0x62], [0x61]] True)] True)) [''f'']"
    using digest_ab_ba by simp
qed

theorem calculateMD5_deterministic_witness:
  "calculateMD5 (fixture (Dir [(''a.png'', File [[1, 2], [3]] True)] True)) [''a.png'']
     = Some (hash_digest_hex [1, 2, 3]) \<and>
   calculateMD5 (fixture (Dir [(''img'', Dir [(''b.png'', File [[1], [2, 3]] True)] True)] True))
       [''img'', ''b.png'']
     = calculateMD5 (fixture (Dir [(''a.png'', File [[1, 2], [3]] True)] True)) [''a.png''] \<and>
   length (hash_digest_hex [1, 2, 3]) = 32 \<and>
   set (hash_digest_hex [1, 2, 3]) \<subseteq> set ''0123456789abcdef''"
proof -
  let ?w1 = "fixture (Dir [(''a.png'', File [[1, 2], [3]] True)] True)"
  let ?w2 = "fixture (Dir [(''img'', Dir [(''b.png'', File [[1], [2, 3]] True)] True)] True)"
  have r1: "readStream (lookup (fs_root ?w1) [''a.png'']) = ([[1, 2], [3]], True)"
    by (simp add: fixture_def readStream_def)
  have r2: "readStream (lookup (fs_root ?w2) [''img'', ''b.png'']) = ([[1], [2, 3]], True)"
    by (simp add: fixture_def readStream_def)
  have c: "concat [[1, 2], [3 :: byte]] = concat [[1], [2, 3]]"
    by simp
  note t = calculateMD5_deterministic [of ?w1 "[''a.png'']" "[[1, 2], [3]]"
        ?w2 "[''img'', ''b.png'']" "[[1], [2, 3]]" ?w1 "[''a.png'']" "hash_digest_hex [1, 2, 3]"]
  from t r1 r2 c show ?thesis by simp
qed

subsection \<open>The outcome of a scan\<close>

lemma fst_and_then [simp]: "fst (and_then a b) = fst a @ fst b"
  and snd_and_then [simp]: "snd (and_then a b) = snd a @ snd b"
  by (simp_all add: and_then_def)

lemma reportDuplicates_spec: "reportDuplicates h t records = spec_outcome h t records"
  by (simp add: reportDuplicates_def spec_outcome_def spec_matches_def spec_others_def
      findDuplicates_def showDuplicatesQuickPick_def Let_def)

lemma checkDuplicates_v1_scan:
  assumes "target_of w uri = Some t" and "existsSync w t"
    and "toLowerCase (extname_path t) \<in> set (imageExtensions w)"
    and "calculateMD5 w t = Some h" and "workspaceFolders w = Some (root # folders)"
  shows "checkDuplicates_v1 w uri =
           (reportDuplicates h t (fst (scanSearchRoots w (imageExtensions w) (searchRoots_v1 w root))),
            [ExistsSync t, CreateReadStream t]
              @ snd (scanSearchRoots w (imageExtensions w) (searchRoots_v1 w root)))"
  using assms by (simp add: checkDuplicates_v1_def split: prod.splits)

lemma checkDuplicates_v2_scan:
  assumes "target_of w uri = Some t" and "existsSync w t"
    and "toLowerCase (extname_path t) \<in> set (imageExtensions w)"
    and "calculateMD5 w t = Some h" and "workspaceFolders w = Some (root # folders)"
  shows "checkDuplicates_v2 w uri =
           (reportDuplicates h t (fst (scanImageFilesWithGlob w (searchPaths w) root)),
            [ExistsSync t, ProgressReport ComputingMD5, CreateReadStream t,
             ProgressReport ScanningFiles]
              @ snd (scanImageFilesWithGlob w (searchPaths w) root)
              @ [ProgressReport MatchingDuplicates])"
  using assms by (simp add: checkDuplicates_v2_def split: prod.splits)

lemmas world_eval =
  fixture_def existsSync_def target_of_def imageExtensions_def default_imageExtensions_def
  searchPaths_def searchRoots_v1_def extname_path_def extname_def toLowerCase_def
  toLowerCase_char_def calculateMD5_def readStream_def foldl_hash_update createHash_def
  scanImageFiles_def scanImageFilesDefault_def scanImageFilesWithGlob_def tryHashFile_def
  path_join_def node_modules_exclude_def and_then_def Let_def

text \<open>
  C1. When the target is there, is an image by its extension, hashes to \<open>h\<close>, and a workspace
  folder is open, the handler of either revision shows the outcome the specification computes
  from the scanned records: \<open>NoneFound\<close> when no record has the fingerprint \<open>h\<close>,
  \<open>OnlySelfFound\<close> when every such record is at the target's path, and otherwise
  \<open>DuplicatesFound\<close> with the matching records away from the target's path. A reported list is
  never empty, and none of its records is at the target's path.
\<close>

theorem checkDuplicates_resolves_outcome:
  assumes "target_of w uri = Some t" and "existsSync w t"
    and "toLowerCase (extname_path t) \<in> set (imageExtensions w)"
    and "calculateMD5 w t = Some h" and "workspaceFolders w = Some (root # folders)"
  shows "fst (checkDuplicates_v1 w uri) =
           spec_outcome h t (fst (scanSearchRoots w (imageExtensions w) (searchRoots_v1 w root))) \<and>
         fst (checkDuplicates_v2 w uri) =
           spec_outcome h t (fst (scanImageFilesWithGlob w (searchPaths w) root)) \<and>
         (\<forall>ds. fst (checkDuplicates_v1 w uri) = DuplicatesFound ds \<or>
               fst (checkDuplicates_v2 w uri) = DuplicatesFound ds \<longrightarrow>
               ds \<noteq> [] \<and> (\<forall>r \<in> set ds. filePath r \<noteq> t \<and> md5 r = h))"
proof (intro conjI allI impI)
  show v1: "fst (checkDuplicates_v1 w uri) =
      spec_outcome h t (fst (scanSearchRoots w (imageExtensions w) (searchRoots_v1 w root)))"
    by (simp add: checkDuplicates_v1_scan [OF assms] reportDuplicates_spec)
  show v2: "fst (checkDuplicates_v2 w uri) =
      spec_outcome h t (fst (scanImageFilesWithGlob w (searchPaths w) root))"
    by (simp add: checkDuplicates_v2_scan [OF assms] reportDuplicates_spec)
  fix ds
  assume "fst (checkDuplicates_v1 w uri) = DuplicatesFound ds \<or>
          fst (checkDuplicates_v2 w uri) = DuplicatesFound ds"
  then obtain records where "spec_outcome h t records = DuplicatesFound ds"
    using v1 v2 by metis
  then have ds: "ds = spec_others t (spec_matches h records)" and ne: "ds \<noteq> []"
    by (auto simp: spec_outcome_def Let_def split: if_splits)
  show "ds \<noteq> []" by (rule ne)
  show "\<forall>r \<in> set ds. filePath r \<noteq> t \<and> md5 r = h"
    by (simp add: ds spec_others_def spec_matches_def)
qed

theorem checkDuplicates_resolves_outcome_witness:
  "fst (checkDuplicates_v1 (fixture copies_tree) (Some [''ws'', ''a.png''])) =
     DuplicatesFound [\<lparr>filePath = [''ws'', ''img'', ''b.png''],
                       md5 = hash_digest_hex [0x61, 0x62],
                       relativePath = [''img'', ''b.png'']\<rparr>] \<and>
   fst (checkDuplicates_v2 (fixture copies_tree) (Some [''ws'', ''a.png''])) =
     DuplicatesFound [\<lparr>filePath = [''ws'', ''img'', ''b.png''],
                       md5 = hash_digest_hex [0x61, 0x62],
                       relativePath = [''img'', ''b.png'']\<rparr>]"
proof -
  let ?w = "fixture copies_tree"
  let ?t = "[''ws'', ''a.png'']"
  have 1: "target_of ?w (Some ?t) = Some ?t"
    by (simp add: target_of_def)
  have 2: "existsSync ?w ?t"
    by (simp add: world_eval copies_tree_def)
  have 3: "toLowerCase (extname_path ?t) \<in> set (imageExtensions ?w)"
    by (simp add: world_eval)
  have 4: "calculateMD5 ?w ?t = Some (hash_digest_hex [0x61, 0x62])"
    by (simp add: world_eval copies_tree_def)
  have 5: "workspaceFolders ?w = Some ([''ws''] # [])"
    by (simp add: fixture_def)
  have 6: "fst (scanSearchRoots ?w (imageExtensions ?w) (searchRoots_v1 ?w [''ws''])) =
      [\<lparr>filePath = [''ws'', ''a.png''], md5 = hash_digest_hex [0x61, 0x62],
         relativePath = [''a.png'']\<rparr>,
       \<lparr>filePath = [''ws'', ''img'', ''b.png''], md5 = hash_digest_hex [0x61, 0x62],
         relativePath = [''img'', ''b.png'']\<rparr>,
       \<lparr>filePath = [''ws'', ''img'', ''c.png''], md5 = hash_digest_hex [0x62, 0x61],
         relativePath = [''img'', ''c.png'']\<rparr>]"
    by (simp add: world_eval copies_tree_def)
  have 7: "fst (scanImageFilesWithGlob ?w (searchPaths ?w) [''ws'']) =
      fst (scanSearchRoots ?w (imageExtensions ?w) (searchRoots_v1 ?w [''ws'']))"
    by (simp add: world_eval copies_tree_def)
  from checkDuplicates_resolves_outcome [OF 1 2 3 4 5] show ?thesis
    unfolding 7 6 using digest_ab_ba
    by (simp add: spec_outcome_def spec_matches_def spec_others_def)
qed

subsection \<open>The order of the handler's steps\<close>

lemma reportDuplicates_cases:
  "reportDuplicates h t records \<in> {NoneFound, OnlySelfFound} \<or>
   (\<exists>ds. reportDuplicates h t records = DuplicatesFound ds)"
  by (simp add: reportDuplicates_def Let_def)

lemma reportDuplicates_no_error:
  "reportDuplicates h t records \<notin> {NoSelection, FileNotFound, NotAnImage, NoWorkspace, IOError}"
  using reportDuplicates_cases [of h t records] by auto

lemma v1_cases:
  "target_of w uri = None \<and> checkDuplicates_v1 w uri = (NoSelection, []) \<or>
   (\<exists>t. target_of w uri = Some t \<and>
      (\<not> existsSync w t \<and> checkDuplicates_v1 w uri = (FileNotFound, [ExistsSync t]) \<or>
       existsSync w t \<and> toLowerCase (extname_path t) \<notin> set (imageExtensions w) \<and>
         checkDuplicates_v1 w uri = (NotAnImage, [ExistsSync t]) \<or>
       existsSync w t \<and> toLowerCase (extname_path t) \<in> set (imageExtensions w) \<and>
         calculateMD5 w t = None \<and>
         checkDuplicates_v1 w uri = (IOError, [ExistsSync t, CreateReadStream t]) \<or>
       existsSync w t \<and> toLowerCase (extname_path t) \<in> set (imageExtensions w) \<and>
         calculateMD5 w t \<noteq> None \<and> workspaceFolders w \<in> {None, Some []} \<and>
         checkDuplicates_v1 w uri = (NoWorkspace, [ExistsSync t, CreateReadStream t]) \<or>
       (\<exists>h root folders. existsSync w t \<and>
          toLowerCase (extname_path t) \<in> set (imageExtensions w) \<and>
          calculateMD5 w t = Some h \<and> workspaceFolders w = Some (root # folders) \<and>
          checkDuplicates_v1 w uri =
            (reportDuplicates h t
               (fst (scanSearchRoots w (imageExtensions w) (searchRoots_v1 w root))),
             [ExistsSync t, CreateReadStream t]
               @ snd (scanSearchRoots w (imageExtensions w) (searchRoots_v1 w root))))))"
  by (auto simp: checkDuplicates_v1_def split: option.splits list.splits prod.splits)

lemma v2_cases:
  "target_of w uri = None \<and> checkDuplicates_v2 w uri = (NoSelection, []) \<or>
   (\<exists>t. target_of w uri = Some t \<and>
      (\<not> existsSync w t \<and> checkDuplicates_v2 w uri = (FileNotFound, [ExistsSync t]) \<or>
       existsSync w t \<and> toLowerCase (extname_path t) \<notin> set (imageExtensions w) \<and>
         checkDuplicates_v2 w uri = (NotAnImage, [ExistsSync t]) \<or>
       existsSync w t \<and> toLowerCase (extname_path t) \<in> set (imageExtensions w) \<and>
         workspaceFolders w \<in> {None, Some []} \<and>
         checkDuplicates_v2 w uri = (NoWorkspace, [ExistsSync t]) \<or>
       (\<exists>root folders. existsSync w t \<and>
          toLowerCase (extname_path t) \<in> set (imageExtensions w) \<and>
          workspaceFolders w = Some (root # folders) \<and> calculateMD5 w t = None \<and>
          checkDuplicates_v2 w uri =
            (IOError, [ExistsSync t, ProgressReport ComputingMD5, CreateReadStream t])) \<or>
       (\<exists>h root folders. existsSync w t \<and>
          toLowerCase (extname_path t) \<in> set (imageExtensions w) \<and>
          calculateMD5 w t = Some h \<and> workspaceFolders w = Some (root # folders) \<and>
          checkDuplicates_v2 w uri =
            (reportDuplicates h t (fst (scanImageFilesWithGlob w (searchPaths w) root)),
             [ExistsSync t, ProgressReport ComputingMD5, CreateReadStream t,
              ProgressReport ScanningFiles]
               @ snd (scanImageFilesWithGlob w (searchPaths w) root)
               @ [ProgressReport MatchingDuplicates]))))"
  by (auto simp: checkDuplicates_v2_def split: option.splits list.splits prod.splits)

text \<open>
  C3, as claimed, fails on v1: with no workspace folder open, v1 has already opened the target
  for hashing when it reports \<open>NoWorkspace\<close>, and a target that cannot be read is reported as
  \<open>IOError\<close> although no workspace folder is open.
\<close>

theorem workspace_check_after_hash_v1:
  "checkDuplicates_v1 ((fixture faulty_tree)\<lparr>workspaceFolders := None\<rparr>) (Some [''ws'', ''a.png''])
     = (NoWorkspace, [ExistsSync [''ws'', ''a.png''], CreateReadStream [''ws'', ''a.png'']]) \<and>
   checkDuplicates_v1 ((fixture faulty_tree)\<lparr>workspaceFolders := None\<rparr>)
       (Some [''ws'', ''torn.png''])
     = (IOError, [ExistsSync [''ws'', ''torn.png''], CreateReadStream [''ws'', ''torn.png'']])"
  by (simp add: checkDuplicates_v1_def world_eval faulty_tree_def)

text \<open>
  C3, amended. In both revisions a missing target gives \<open>FileNotFound\<close> and a target whose
  lower-cased extension is not configured gives \<open>NotAnImage\<close>, each after the existence check
  alone: nothing was hashed, listed or resolved. Without a workspace folder, v2 reports \<open>NoWorkspace\<close> at that
  same point, before hashing; v1 hashes the target first and then reports \<open>NoWorkspace\<close>, or
  \<open>IOError\<close> when that hash fails, in both cases before any directory is listed. Conversely, an
  outcome \<open>FileNotFound\<close> or \<open>NotAnImage\<close> (and \<open>NoWorkspace\<close> in v2) comes with a trace that
  holds the existence check only.
\<close>

theorem validation_order:
  "(target_of w uri = Some t \<and> \<not> existsSync w t \<longrightarrow>
      checkDuplicates_v1 w uri = (FileNotFound, [ExistsSync t]) \<and>
      checkDuplicates_v2 w uri = (FileNotFound, [ExistsSync t])) \<and>
   (target_of w uri = Some t \<and> existsSync w t \<and>
    toLowerCase (extname_path t) \<notin> set (imageExtensions w) \<longrightarrow>
      checkDuplicates_v1 w uri = (NotAnImage, [ExistsSync t]) \<and>
      checkDuplicates_v2 w uri = (NotAnImage, [ExistsSync t])) \<and>
   (target_of w uri = Some t \<and> existsSync w t \<and>
    toLowerCase (extname_path t) \<in> set (imageExtensions w) \<and>
    workspaceFolders w \<in> {None, Some []} \<longrightarrow>
      checkDuplicates_v2 w uri = (NoWorkspace, [ExistsSync t]) \<and>
      checkDuplicates_v1 w uri =
        (if calculateMD5 w t = None then IOError else NoWorkspace,
         [ExistsSync t, CreateReadStream t])) \<and>
   (fst (checkDuplicates_v1 w uri) \<in> {FileNotFound, NotAnImage} \<longrightarrow>
      (\<exists>t. snd (checkDuplicates_v1 w uri) = [ExistsSync t])) \<and>
   (fst (checkDuplicates_v2 w uri) \<in> {FileNotFound, NotAnImage, NoWorkspace} \<longrightarrow>
      (\<exists>t. snd (checkDuplicates_v2 w uri) = [ExistsSync t])) \<and>
   (fst (checkDuplicates_v1 w uri) = NoWorkspace \<longrightarrow>
      (\<exists>t. snd (checkDuplicates_v1 w uri) = [ExistsSync t, CreateReadStream t]))"
proof (intro conjI impI)
  assume "target_of w uri = Some t \<and> \<not> existsSync w t"
  then show "checkDuplicates_v1 w uri = (FileNotFound, [ExistsSync t])"
    and "checkDuplicates_v2 w uri = (FileNotFound, [ExistsSync t])"
    by (simp_all add: checkDuplicates_v1_def checkDuplicates_v2_def)
next
  assume "target_of w uri = Some t \<and> existsSync w t \<and>
    toLowerCase (extname_path t) \<notin> set (imageExtensions w)"
  then show "checkDuplicates_v1 w uri = (NotAnImage, [ExistsSync t])"
    and "checkDuplicates_v2 w uri = (NotAnImage, [ExistsSync t])"
    by (simp_all add: checkDuplicates_v1_def checkDuplicates_v2_def)
next
  assume a: "target_of w uri = Some t \<and> existsSync w t \<and>
    toLowerCase (extname_path t) \<in> set (imageExtensions w) \<and>
    workspaceFolders w \<in> {None, Some []}"
  then show "checkDuplicates_v2 w uri = (NoWorkspace, [ExistsSync t])"
    by (auto simp: checkDuplicates_v2_def)
  from a show "checkDuplicates_v1 w uri =
      (if calculateMD5 w t = None then IOError else NoWorkspace,
       [ExistsSync t, CreateReadStream t])"
    by (auto simp: checkDuplicates_v1_def)
next
  assume "fst (checkDuplicates_v1 w uri) \<in> {FileNotFound, NotAnImage}"
  then show "\<exists>t. snd (checkDuplicates_v1 w uri) = [ExistsSync t]"
    using v1_cases [of w uri] reportDuplicates_no_error by auto
next
  assume "fst (checkDuplicates_v2 w uri) \<in> {FileNotFound, NotAnImage, NoWorkspace}"
  then show "\<exists>t. snd (checkDuplicates_v2 w uri) = [ExistsSync t]"
    using v2_cases [of w uri] reportDuplicates_no_error by auto
next
  assume "fst (checkDuplicates_v1 w uri) = NoWorkspace"
  then show "\<exists>t. snd (checkDuplicates_v1 w uri) = [ExistsSync t, CreateReadStream t]"
    using v1_cases [of w uri] reportDuplicates_no_error by auto
qed

theorem validation_order_witness:
  "checkDuplicates_v1 (fixture faulty_tree) (Some [''ws'', ''gone.png''])
     = (FileNotFound, [ExistsSync [''ws'', ''gone.png'']]) \<and>
   checkDuplicates_v2 (fixture faulty_tree) (Some [''ws'', ''gone.png''])
     = (FileNotFound, [ExistsSync [''ws'', ''gone.png'']]) \<and>
   checkDuplicates_v1 (fixture faulty_tree) (Some [''ws'', ''notes.txt''])
     = (NotAnImage, [ExistsSync [''ws'', ''notes.txt'']]) \<and>
   checkDuplicates_v2 (fixture faulty_tree) (Some [''ws'', ''notes.txt''])
     = (NotAnImage, [ExistsSync [''ws'', ''notes.txt'']]) \<and>
   checkDuplicates_v2 ((fixture faulty_tree)\<lparr>workspaceFolders := Some []\<rparr>)
       (Some [''ws'', ''a.png''])
     = (NoWorkspace, [ExistsSync [''ws'', ''a.png'']]) \<and>
   checkDuplicates_v1 ((fixture faulty_tree)\<lparr>workspaceFolders := Some []\<rparr>)
       (Some [''ws'', ''a.png''])
     = (NoWorkspace, [ExistsSync [''ws'', ''a.png''], CreateReadStream [''ws'', ''a.png'']])"
proof -
  let ?w = "fixture faulty_tree"
  let ?nows = "(fixture faulty_tree)\<lparr>workspaceFolders := Some []\<rparr>"
  have gone: "target_of ?w (Some [''ws'', ''gone.png'']) = Some [''ws'', ''gone.png''] \<and>
      \<not> existsSync ?w [''ws'', ''gone.png'']"
    by (simp add: world_eval faulty_tree_def)
  have nonimg: "target_of ?w (Some [''ws'', ''notes.txt'']) = Some [''ws'', ''notes.txt''] \<and>
      existsSync ?w [''ws'', ''notes.txt''] \<and>
      toLowerCase (extname_path [''ws'', ''notes.txt'']) \<notin> set (imageExtensions ?w)"
    by (simp add: world_eval faulty_tree_def)
  have nows: "target_of ?nows (Some [''ws'', ''a.png'']) = Some [''ws'', ''a.png''] \<and>
      existsSync ?nows [''ws'', ''a.png''] \<and>
      toLowerCase (extname_path [''ws'', ''a.png'']) \<in> set (imageExtensions ?nows) \<and>
      workspaceFolders ?nows \<in> {None, Some []}"
    by (simp add: world_eval faulty_tree_def)
  have hashed: "calculateMD5 ?nows [''ws'', ''a.png''] \<noteq> None"
    by (simp add: world_eval faulty_tree_def)
  from validation_order [of ?w "Some [''ws'', ''gone.png'']" "[''ws'', ''gone.png'']"] gone
  have 1: "checkDuplicates_v1 ?w (Some [''ws'', ''gone.png''])
        = (FileNotFound, [ExistsSync [''ws'', ''gone.png'']]) \<and>
      checkDuplicates_v2 ?w (Some [''ws'', ''gone.png''])
        = (FileNotFound, [ExistsSync [''ws'', ''gone.png'']])"
    by blast
  from validation_order [of ?w "Some [''ws'', ''notes.txt'']" "[''ws'', ''notes.txt'']"] nonimg
  have 2: "checkDuplicates_v1 ?w (Some [''ws'', ''notes.txt''])
        = (NotAnImage, [ExistsSync [''ws'', ''notes.txt'']]) \<and>
      checkDuplicates_v2 ?w (Some [''ws'', ''notes.txt''])
        = (NotAnImage, [ExistsSync [''ws'', ''notes.txt'']])"
    by blast
  from validation_order [of ?nows "Some [''ws'', ''a.png'']" "[''ws'', ''a.png'']"] nows
  have 3: "checkDuplicates_v2 ?nows (Some [''ws'', ''a.png''])
        = (NoWorkspace, [ExistsSync [''ws'', ''a.png'']]) \<and>
      checkDuplicates_v1 ?nows (Some [''ws'', ''a.png'']) =
        (if calculateMD5 ?nows [''ws'', ''a.png''] = None then IOError else NoWorkspace,
         [ExistsSync [''ws'', ''a.png''], CreateReadStream [''ws'', ''a.png'']])"
    by blast
  from 1 2 3 hashed show ?thesis by simp
qed

text \<open>
  C7. When the target passes the checks and its hash fails, the handler shows \<open>IOError\<close> and
  stops: the trace ends with the attempt to read the target, so no directory was listed, no
  pattern resolved and no lookup made (v2 checks the workspace before it hashes, so there a
  workspace folder is assumed). When the target's hash succeeds, the outcome is never
  \<open>IOError\<close>, whatever happens to the candidate files of the walk.
\<close>

theorem target_hash_failure_is_fatal:
  "(target_of w uri = Some t \<and> existsSync w t \<and>
    toLowerCase (extname_path t) \<in> set (imageExtensions w) \<and> calculateMD5 w t = None \<longrightarrow>
      checkDuplicates_v1 w uri = (IOError, [ExistsSync t, CreateReadStream t]) \<and>
      (workspaceFolders w = Some (root # folders) \<longrightarrow>
         checkDuplicates_v2 w uri =
           (IOError, [ExistsSync t, ProgressReport ComputingMD5, CreateReadStream t]))) \<and>
   (target_of w uri = Some t \<and> existsSync w t \<and>
    toLowerCase (extname_path t) \<in> set (imageExtensions w) \<and> calculateMD5 w t = Some h \<and>
    workspaceFolders w = Some (root # folders) \<longrightarrow>
      fst (checkDuplicates_v1 w uri) \<noteq> IOError \<and> fst (checkDuplicates_v2 w uri) \<noteq> IOError)"
proof (intro conjI impI)
  assume a: "target_of w uri = Some t \<and> existsSync w t \<and>
    toLowerCase (extname_path t) \<in> set (imageExtensions w) \<and> calculateMD5 w t = None"
  then show "checkDuplicates_v1 w uri = (IOError, [ExistsSync t, CreateReadStream t])"
    by (simp add: checkDuplicates_v1_def)
  assume "workspaceFolders w = Some (root # folders)"
  with a show "checkDuplicates_v2 w uri =
      (IOError, [ExistsSync t, ProgressReport ComputingMD5, CreateReadStream t])"
    by (simp add: checkDuplicates_v2_def)
next
  assume a: "target_of w uri = Some t \<and> existsSync w t \<and>
    toLowerCase (extname_path t) \<in> set (imageExtensions w) \<and> calculateMD5 w t = Some h \<and>
    workspaceFolders w = Some (root # folders)"
  have "reportDuplicates h t records \<noteq> IOError" for records
    using reportDuplicates_no_error [of h t records] by simp
  with a show "fst (checkDuplicates_v1 w uri) \<noteq> IOError"
    and "fst (checkDuplicates_v2 w uri) \<noteq> IOError"
    by (simp_all add: checkDuplicates_v1_scan checkDuplicates_v2_scan)
qed

theorem target_hash_failure_is_fatal_witness:
  "checkDuplicates_v1 (fixture faulty_tree) (Some [''ws'', ''torn.png''])
     = (IOError, [ExistsSync [''ws'', ''torn.png''], CreateReadStream [''ws'', ''torn.png'']]) \<and>
   checkDuplicates_v2 (fixture faulty_tree) (Some [''ws'', ''torn.png''])
     = (IOError, [ExistsSync [''ws'', ''torn.png''], ProgressReport ComputingMD5,
                  CreateReadStream [''ws'', ''torn.png'']]) \<and>
   fst (checkDuplicates_v1 (fixture faulty_tree) (Some [''ws'', ''a.png''])) \<noteq> IOError \<and>
   fst (checkDuplicates_v2 (fixture faulty_tree) (Some [''ws'', ''a.png''])) \<noteq> IOError \<and>
   calculateMD5 (fixture faulty_tree) [''ws'', ''torn.png''] = None"
proof -
  let ?w = "fixture faulty_tree"
  have torn: "target_of ?w (Some [''ws'', ''torn.png'']) = Some [''ws'', ''torn.png''] \<and>
      existsSync ?w [''ws'', ''torn.png''] \<and>
      toLowerCase (extname_path [''ws'', ''torn.png'']) \<in> set (imageExtensions ?w) \<and>
      calculateMD5 ?w [''ws'', ''torn.png''] = None"
    by (simp add: world_eval faulty_tree_def)
  have ok: "target_of ?w (Some [''ws'', ''a.png'']) = Some [''ws'', ''a.png''] \<and>
      existsSync ?w [''ws'', ''a.png''] \<and>
      toLowerCase (extname_path [''ws'', ''a.png'']) \<in> set (imageExtensions ?w) \<and>
      calculateMD5 ?w [''ws'', ''a.png''] = Some (hash_digest_hex [0x61, 0x62]) \<and>
      workspaceFolders ?w = Some ([''ws''] # [])"
    by (simp add: world_eval faulty_tree_def)
  have ws: "workspaceFolders ?w = Some ([''ws''] # [])"
    by (simp add: fixture_def)
  from target_hash_failure_is_fatal
      [of ?w "Some [''ws'', ''torn.png'']" "[''ws'', ''torn.png'']" "[''ws'']" "[]"] torn ws
  have 1: "checkDuplicates_v1 ?w (Some [''ws'', ''torn.png''])
        = (IOError, [ExistsSync [''ws'', ''torn.png''], CreateReadStream [''ws'', ''torn.png'']]) \<and>
      checkDuplicates_v2 ?w (Some [''ws'', ''torn.png''])
        = (IOError, [ExistsSync [''ws'', ''torn.png''], ProgressReport ComputingMD5,
                     CreateReadStream [''ws'', ''torn.png'']])"
    by blast
  from target_hash_failure_is_fatal
      [of ?w "Some [''ws'', ''a.png'']" "[''ws'', ''a.png'']" "[''ws'']" "[]"
          "hash_digest_hex [0x61, 0x62]"] ok
  have 2: "fst (checkDuplicates_v1 ?w (Some [''ws'', ''a.png''])) \<noteq> IOError \<and>
      fst (checkDuplicates_v2 ?w (Some [''ws'', ''a.png''])) \<noteq> IOError"
    by blast
  from 1 2 torn show ?thesis by simp
qed

subsection \<open>The search roots of v1\<close>

lemma and_then_Nil [simp]: "and_then ([], []) r = r" "and_then r ([], []) = r"
  by (simp_all add: and_then_def)

lemma and_then_assoc: "and_then (and_then a b) c = and_then a (and_then b c)"
  by (simp add: and_then_def)

lemma scanSearchRoots_append:
  "scanSearchRoots w exts (xs @ ys) =
     and_then (scanSearchRoots w exts xs) (scanSearchRoots w exts ys)"
  by (induction xs) (simp_all add: and_then_assoc)

lemma scanSearchRoots_records:
  "fst (scanSearchRoots w exts roots) =
     concat (map (\<lambda>r. fst (scanImageFiles w exts r)) (filter (existsSync w) roots))"
  by (induction roots) simp_all

text \<open>
  C10. In v1, a search root that \<^verbatim>\<open>fs.existsSync\<close> does not find contributes its existence
  check to the trace and nothing else: no record and no logged error. The records of the scan are
  those of the roots that exist, in order, and the handler's outcome is computed from them; it is
  no error.
\<close>

theorem missing_search_root_skipped:
  "(\<not> existsSync w r \<longrightarrow>
      scanSearchRoots w exts (before @ r # after) =
        and_then (scanSearchRoots w exts before)
          (and_then ([], [ExistsSync r]) (scanSearchRoots w exts after)) \<and>
      fst (scanSearchRoots w exts (before @ r # after)) =
        fst (scanSearchRoots w exts (before @ after))) \<and>
   fst (scanSearchRoots w exts roots) =
     concat (map (\<lambda>r. fst (scanImageFiles w exts r)) (filter (existsSync w) roots)) \<and>
   (target_of w uri = Some t \<and> existsSync w t \<and>
    toLowerCase (extname_path t) \<in> set (imageExtensions w) \<and> calculateMD5 w t = Some h \<and>
    workspaceFolders w = Some (root # folders) \<longrightarrow>
      fst (checkDuplicates_v1 w uri) =
        reportDuplicates h t
          (concat (map (\<lambda>r. fst (scanImageFiles w (imageExtensions w) r))
             (filter (existsSync w) (searchRoots_v1 w root)))) \<and>
      fst (checkDuplicates_v1 w uri)
        \<notin> {NoSelection, FileNotFound, NotAnImage, NoWorkspace, IOError})"
proof (intro conjI impI)
  assume r: "\<not> existsSync w r"
  then show "scanSearchRoots w exts (before @ r # after) =
      and_then (scanSearchRoots w exts before)
        (and_then ([], [ExistsSync r]) (scanSearchRoots w exts after))"
    by (simp add: scanSearchRoots_append)
  from r show "fst (scanSearchRoots w exts (before @ r # after)) =
      fst (scanSearchRoots w exts (before @ after))"
    by (simp add: scanSearchRoots_append)
next
  show "fst (scanSearchRoots w exts roots) =
      concat (map (\<lambda>r. fst (scanImageFiles w exts r)) (filter (existsSync w) roots))"
    by (rule scanSearchRoots_records)
next
  assume a: "target_of w uri = Some t \<and> existsSync w t \<and>
    toLowerCase (extname_path t) \<in> set (imageExtensions w) \<and> calculateMD5 w t = Some h \<and>
    workspaceFolders w = Some (root # folders)"
  then show eq: "fst (checkDuplicates_v1 w uri) =
      reportDuplicates h t
        (concat (map (\<lambda>r. fst (scanImageFiles w (imageExtensions w) r))
           (filter (existsSync w) (searchRoots_v1 w root))))"
    by (simp add: checkDuplicates_v1_scan scanSearchRoots_records)
  show "fst (checkDuplicates_v1 w uri)
      \<notin> {NoSelection, FileNotFound, NotAnImage, NoWorkspace, IOError}"
    unfolding eq by (rule reportDuplicates_no_error)
qed

theorem missing_search_root_skipped_witness:
  "scanSearchRoots (fixture faulty_tree) default_imageExtensions
       [[''ws'', ''img''], [''ws'', ''gone''], [''ws'', ''img'']] =
     and_then (scanSearchRoots (fixture faulty_tree) default_imageExtensions [[''ws'', ''img'']])
       (and_then ([], [ExistsSync [''ws'', ''gone'']])
          (scanSearchRoots (fixture faulty_tree) default_imageExtensions [[''ws'', ''img'']])) \<and>
   fst (checkDuplicates_v1 ((fixture faulty_tree)\<lparr>cfg_searchPaths := Some [''gone'', ''img'']\<rparr>)
          (Some [''ws'', ''a.png''])) =
     DuplicatesFound [\<lparr>filePath = [''ws'', ''img'', ''b.png''],
                       md5 = hash_digest_hex [0x61, 0x62], relativePath = [''b.png'']\<rparr>]"
proof -
  let ?w = "fixture faulty_tree"
  let ?c = "(fixture faulty_tree)\<lparr>cfg_searchPaths := Some [''gone'', ''img'']\<rparr>"
  have gone: "\<not> existsSync ?w [''ws'', ''gone'']"
    by (simp add: world_eval faulty_tree_def)
  have ok: "target_of ?c (Some [''ws'', ''a.png'']) = Some [''ws'', ''a.png''] \<and>
      existsSync ?c [''ws'', ''a.png''] \<and>
      toLowerCase (extname_path [''ws'', ''a.png'']) \<in> set (imageExtensions ?c) \<and>
      calculateMD5 ?c [''ws'', ''a.png''] = Some (hash_digest_hex [0x61, 0x62]) \<and>
      workspaceFolders ?c = Some ([''ws''] # [])"
    by (simp add: world_eval faulty_tree_def)
  have roots: "filter (existsSync ?c) (searchRoots_v1 ?c [''ws'']) = [[''ws'', ''img'']]"
    by (simp add: world_eval faulty_tree_def)
  have img: "fst (scanImageFiles ?c (imageExtensions ?c) [''ws'', ''img'']) =
      [\<lparr>filePath = [''ws'', ''img'', ''b.png''], md5 = hash_digest_hex [0x61, 0x62],
         relativePath = [''b.png'']\<rparr>]"
    by (simp add: world_eval faulty_tree_def)
  from missing_search_root_skipped
      [of ?w "[''ws'', ''gone'']" default_imageExtensions "[[''ws'', ''img'']]"
          "[[''ws'', ''img'']]"] gone
  have 1: "scanSearchRoots ?w default_imageExtensions
        [[''ws'', ''img''], [''ws'', ''gone''], [''ws'', ''img'']] =
      and_then (scanSearchRoots ?w default_imageExtensions [[''ws'', ''img'']])
        (and_then ([], [ExistsSync [''ws'', ''gone'']])
           (scanSearchRoots ?w default_imageExtensions [[''ws'', ''img'']]))"
    by simp
  from missing_search_root_skipped
      [of ?c _ _ _ _ _ "Some [''ws'', ''a.png'']" "[''ws'', ''a.png'']"
          "hash_digest_hex [0x61, 0x62]" "[''ws'']" "[]"] ok
  have "fst (checkDuplicates_v1 ?c (Some [''ws'', ''a.png''])) =
      reportDuplicates (hash_digest_hex [0x61, 0x62]) [''ws'', ''a.png'']
        (concat (map (\<lambda>r. fst (scanImageFiles ?c (imageExtensions ?c) r))
           (filter (existsSync ?c) (searchRoots_v1 ?c [''ws'']))))"
    by blast
  then have 2: "fst (checkDuplicates_v1 ?c (Some [''ws'', ''a.png''])) =
      DuplicatesFound [\<lparr>filePath = [''ws'', ''img'', ''b.png''],
                        md5 = hash_digest_hex [0x61, 0x62], relativePath = [''b.png'']\<rparr>]"
    unfolding roots
    by (simp add: img reportDuplicates_def findDuplicates_def showDuplicatesQuickPick_def)
  from 1 2 show ?thesis by simp
qed

subsection \<open>What the walk skips\<close>

lemma clean_below_entry:
  "name \<noteq> ''node_modules'' \<Longrightarrow> \<not> startsWith_dot name \<Longrightarrow> clean_below dir (dir @ [name])"
  by (simp add: clean_below_def)

lemma clean_below_step:
  assumes "name \<noteq> ''node_modules''" and "\<not> startsWith_dot name"
    and "clean_below (dir @ [name]) p"
  shows "clean_below dir p"
proof -
  from assms(3) have len: "length dir + 1 < length p"
    and pre: "take (length dir + 1) p = dir @ [name]"
    and rest: "\<forall>c \<in> set (drop (length dir + 1) p). c \<noteq> ''node_modules'' \<and> \<not> startsWith_dot c"
    by (simp_all add: clean_below_def)
  from pre have "take (length dir) (take (length dir + 1) p) = dir"
    by simp
  then have t: "take (length dir) p = dir"
    by (simp add: min_def)
  have "p = take (length dir + 1) p @ drop (length dir + 1) p"
    by simp
  then have "p = (dir @ [name]) @ drop (length dir + 1) p"
    using pre by metis
  then have "p = dir @ name # drop (length dir + 1) p"
    by simp
  then have "drop (length dir) p = name # drop (length dir + 1) p"
    by (metis append_eq_conv_conj)
  with assms(1,2) rest t len show ?thesis
    by (simp add: clean_below_def)
qed

lemma tryHashFile_record:
  "r \<in> set (fst (tryHashFile w base f)) \<Longrightarrow>
     filePath r = f \<and> relativePath r = path_relative base f \<and> calculateMD5 w f = Some (md5 r)"
  by (auto simp: tryHashFile_def split: option.splits)

lemma tryHashFile_events:
  "CreateReadStream p \<in> set (snd (tryHashFile w base f)) \<longleftrightarrow> p = f"
  by (auto simp: tryHashFile_def split: option.splits)

lemma tryHashFile_failed:
  "calculateMD5 w f = None \<Longrightarrow>
     tryHashFile w base f = ([], [CreateReadStream f, ConsoleError (Md5Failed f)])"
  by (simp add: tryHashFile_def)

lemma scan_records_clean:
  "\<forall>r \<in> set (fst (scanDirectory w exts root dir n)). clean_below dir (filePath r)"
  "\<forall>r \<in> set (fst (scanEntries w exts root dir es)). clean_below dir (filePath r)"
proof (induction w exts root dir n and w exts root dir es rule: scanDirectory_scanEntries.induct)
  case (5 w exts rootPath dirPath name n rest)
  show ?case
  proof (cases "name = ''node_modules'' \<or> startsWith_dot name")
    case True
    with 5 show ?thesis by simp
  next
    case False
    then have ok: "name \<noteq> ''node_modules''" "\<not> startsWith_dot name"
      by simp_all
    show ?thesis
    proof (cases n)
      case (File chunks ok')
      with 5 False show ?thesis
        by (auto dest!: tryHashFile_record simp: clean_below_entry)
    next
      case (Dir es readable)
      with 5 False show ?thesis
        by (auto simp: Let_def intro: clean_below_step [OF ok] split: if_splits)
    next
      case (Special chunks ok')
      with 5 False show ?thesis by simp
    qed
  qed
qed simp_all

lemma scan_events_clean:
  "\<forall>p. CreateReadStream p \<in> set (snd (scanDirectory w exts root dir n)) \<longrightarrow> clean_below dir p"
  "\<forall>p. CreateReadStream p \<in> set (snd (scanEntries w exts root dir es)) \<longrightarrow> clean_below dir p"
proof (induction w exts root dir n and w exts root dir es rule: scanDirectory_scanEntries.induct)
  case (5 w exts rootPath dirPath name n rest)
  show ?case
  proof (cases "name = ''node_modules'' \<or> startsWith_dot name")
    case True
    with 5 show ?thesis by simp
  next
    case False
    then have ok: "name \<noteq> ''node_modules''" "\<not> startsWith_dot name"
      by simp_all
    show ?thesis
    proof (cases n)
      case (File chunks ok')
      with 5 False show ?thesis
        by (auto simp: tryHashFile_events clean_below_entry)
    next
      case (Dir es readable)
      with 5 False show ?thesis
        by (auto simp: Let_def intro: clean_below_step [OF ok] split: if_splits)
    next
      case (Special chunks ok')
      with 5 False show ?thesis by simp
    qed
  qed
qed simp_all

lemma scanImageFiles_records_clean:
  "r \<in> set (fst (scanImageFiles w extensions root)) \<Longrightarrow> clean_below root (filePath r)"
  using scan_records_clean(1) [of w "map toLowerCase extensions" root root]
  by (auto simp: scanImageFiles_def split: option.splits)

lemma scanImageFiles_events_clean:
  "CreateReadStream p \<in> set (snd (scanImageFiles w extensions root)) \<Longrightarrow> clean_below root p"
  using scan_events_clean(1) [of w "map toLowerCase extensions" root root]
  by (auto simp: scanImageFiles_def split: option.splits)

text \<open>
  C9. In the recursive walk an entry whose name starts with a dot is passed over whatever it is:
  the loop goes on with the remaining entries, nothing is read and nothing is recorded. So no
  record of a walk, and no file the walk opens, has a component below the walked root that starts
  with a dot, the file's own name included: \<^verbatim>\<open>.icon.png\<close> is left out although
  \<^verbatim>\<open>path.extname\<close> gives it the configured extension \<^verbatim>\<open>.png\<close>.
\<close>

theorem dot_entries_skipped:
  "(startsWith_dot name \<longrightarrow>
      scanEntries w exts root dir ((name, n) # rest) = scanEntries w exts root dir rest) \<and>
   (\<forall>r \<in> set (fst (scanImageFiles w extensions root)).
      \<forall>c \<in> set (drop (length root) (filePath r)). \<not> startsWith_dot c) \<and>
   (\<forall>p. CreateReadStream p \<in> set (snd (scanImageFiles w extensions root)) \<longrightarrow>
      (\<forall>c \<in> set (drop (length root) p). \<not> startsWith_dot c)) \<and>
   startsWith_dot ''.icon.png'' \<and>
   toLowerCase (extname ''.icon.png'') \<in> set (map toLowerCase default_imageExtensions)"
proof (intro conjI impI ballI allI)
  assume "startsWith_dot name"
  then show "scanEntries w exts root dir ((name, n) # rest) = scanEntries w exts root dir rest"
    by simp
next
  fix r c
  assume "r \<in> set (fst (scanImageFiles w extensions root))"
    and "c \<in> set (drop (length root) (filePath r))"
  then show "\<not> startsWith_dot c"
    using scanImageFiles_records_clean [of r w extensions root] by (simp add: clean_below_def)
next
  fix p c
  assume "CreateReadStream p \<in> set (snd (scanImageFiles w extensions root))"
    and "c \<in> set (drop (length root) p)"
  then show "\<not> startsWith_dot c"
    using scanImageFiles_events_clean [of p w extensions root] by (simp add: clean_below_def)
next
  show "startsWith_dot ''.icon.png''"
    by simp
  show "toLowerCase (extname ''.icon.png'') \<in> set (map toLowerCase default_imageExtensions)"
    by (simp add: world_eval)
qed

lemma hidden_tree_scan:
  "scanImageFiles (fixture hidden_tree) default_imageExtensions [''ws''] =
     ([\<lparr>filePath = [''ws'', ''a.png''], md5 = hash_digest_hex [0x61, 0x62],
         relativePath = [''a.png'']\<rparr>,
       \<lparr>filePath = [''ws'', ''docs'', ''B.PNG''], md5 = hash_digest_hex [0x61, 0x62],
         relativePath = [''docs'', ''B.PNG'']\<rparr>],
      [Readdir [''ws''], CreateReadStream [''ws'', ''a.png''],
       ProgressReport (Scanned [''a.png'']), Readdir [''ws'', ''docs''],
       CreateReadStream [''ws'', ''docs'', ''B.PNG''],
       ProgressReport (Scanned [''docs'', ''B.PNG''])])"
  by (simp add: world_eval hidden_tree_def)

theorem dot_entries_skipped_witness:
  "scanEntries (fixture hidden_tree) default_imageExtensions [''ws''] [''ws'']
       [(''.icon.png'', File [[0x61, 0x62]] True), (''a.png'', File [[0x61, 0x62]] True)] =
     scanEntries (fixture hidden_tree) default_imageExtensions [''ws''] [''ws'']
       [(''a.png'', File [[0x61, 0x62]] True)] \<and>
   lookup hidden_tree [''ws'', ''.icon.png''] = Some (File [[0x61, 0x62]] True) \<and>
   [''ws'', ''.icon.png'']
     \<notin> filePath ` set (fst (scanImageFiles (fixture hidden_tree) default_imageExtensions [''ws''])) \<and>
   CreateReadStream [''ws'', ''.icon.png'']
     \<notin> set (snd (scanImageFiles (fixture hidden_tree) default_imageExtensions [''ws'']))"
proof -
  let ?w = "fixture hidden_tree"
  let ?scan = "scanImageFiles ?w default_imageExtensions [''ws'']"
  note t = dot_entries_skipped [where name = "''.icon.png''" and w = ?w
      and exts = default_imageExtensions and root = "[''ws'']" and dir = "[''ws'']"
      and n = "File [[0x61, 0x62]] True" and rest = "[(''a.png'', File [[0x61, 0x62]] True)]"
      and extensions = default_imageExtensions]
  have dot: "startsWith_dot ''.icon.png''"
    by simp
  from t dot have 1: "scanEntries ?w default_imageExtensions [''ws''] [''ws'']
        [(''.icon.png'', File [[0x61, 0x62]] True), (''a.png'', File [[0x61, 0x62]] True)] =
      scanEntries ?w default_imageExtensions [''ws''] [''ws'']
        [(''a.png'', File [[0x61, 0x62]] True)]"
    by blast
  have 2: "lookup hidden_tree [''ws'', ''.icon.png''] = Some (File [[0x61, 0x62]] True)"
    by (simp add: hidden_tree_def)
  have 3: "[''ws'', ''.icon.png''] \<notin> filePath ` set (fst ?scan)"
  proof
    assume "[''ws'', ''.icon.png''] \<in> filePath ` set (fst ?scan)"
    then obtain r where r: "r \<in> set (fst ?scan)" and p: "filePath r = [''ws'', ''.icon.png'']"
      by auto
    from t r have "\<forall>c \<in> set (drop (length [''ws'']) (filePath r)). \<not> startsWith_dot c"
      by blast
    with p show False by simp
  qed
  have 4: "CreateReadStream [''ws'', ''.icon.png''] \<notin> set (snd ?scan)"
  proof
    assume "CreateReadStream [''ws'', ''.icon.png''] \<in> set (snd ?scan)"
    with t have "\<forall>c \<in> set (drop (length [''ws'']) [''ws'', ''.icon.png'']). \<not> startsWith_dot c"
      by blast
    then show False by simp
  qed
  from 1 2 3 4 show ?thesis by simp
qed

subsection \<open>Failures that do not stop the scan\<close>

lemma scanEntries_append:
  "scanEntries w exts root dir (es1 @ es2) =
     and_then (scanEntries w exts root dir es1) (scanEntries w exts root dir es2)"
proof (induction es1)
  case Nil
  show ?case by simp
next
  case (Cons e es1)
  obtain name n where e: "e = (name, n)"
    by (cases e)
  from Cons show ?case
    by (simp add: e Let_def and_then_assoc)
qed

lemma scanFoundFiles_append:
  "scanFoundFiles w exts root (fs1 @ fs2) =
     and_then (scanFoundFiles w exts root fs1) (scanFoundFiles w exts root fs2)"
  by (induction fs1) (simp_all add: and_then_assoc)

lemma scanPatterns_append:
  "scanPatterns w exts root (ps1 @ ps2) =
     and_then (scanPatterns w exts root ps1) (scanPatterns w exts root ps2)"
  by (induction ps1) (simp_all add: and_then_assoc)

lemma scan_records_hashed:
  "\<forall>r \<in> set (fst (scanDirectory w exts root dir n)). calculateMD5 w (filePath r) = Some (md5 r)"
  "\<forall>r \<in> set (fst (scanEntries w exts root dir es)). calculateMD5 w (filePath r) = Some (md5 r)"
  by (induction w exts root dir n and w exts root dir es rule: scanDirectory_scanEntries.induct)
     (auto split: fsnode.splits if_splits simp: Let_def dest: tryHashFile_record)

lemma scanImageFiles_hashed:
  "r \<in> set (fst (scanImageFiles w extensions root)) \<Longrightarrow>
     calculateMD5 w (filePath r) = Some (md5 r)"
  using scan_records_hashed(1) [of w "map toLowerCase extensions" root root]
  by (auto simp: scanImageFiles_def split: option.splits)

lemma scanFoundFiles_hashed:
  "r \<in> set (fst (scanFoundFiles w exts root files)) \<Longrightarrow>
     calculateMD5 w (filePath r) = Some (md5 r)"
  by (induction files) (auto split: if_splits dest: tryHashFile_record)

lemma scanPatterns_hashed:
  "r \<in> set (fst (scanPatterns w exts root pats)) \<Longrightarrow>
     calculateMD5 w (filePath r) = Some (md5 r)"
  by (induction pats) (auto split: option.splits dest: scanFoundFiles_hashed)

lemma scanImageFilesWithGlob_hashed:
  "r \<in> set (fst (scanImageFilesWithGlob w pats root)) \<Longrightarrow>
     calculateMD5 w (filePath r) = Some (md5 r)"
  by (auto simp: scanImageFilesWithGlob_def scanImageFilesDefault_def
      dest: scanPatterns_hashed scanImageFiles_hashed split: if_splits)

lemma scanSearchRoots_hashed:
  "r \<in> set (fst (scanSearchRoots w extensions roots)) \<Longrightarrow>
     calculateMD5 w (filePath r) = Some (md5 r)"
  by (induction roots) (auto split: if_splits dest: scanImageFiles_hashed)

text \<open>
  C6. A candidate whose hash fails, a directory that cannot be listed and a pattern that cannot
  be resolved each leave a log entry and no record, wherever they stand in their loop: the
  entries, files and patterns before and after them are scanned as if the failing one were not
  there. Every record of a scan belongs to a file whose hash succeeded. And once the target is
  hashed and a workspace folder is open, the handler of either revision ends with one of the
  three outcomes of the lookup, never with an error.
\<close>

theorem recoverable_failures_skipped:
  "(name \<noteq> ''node_modules'' \<and> \<not> startsWith_dot name \<and>
    toLowerCase (extname name) \<in> set exts \<and> calculateMD5 w (dir @ [name]) = None \<longrightarrow>
      scanEntries w exts root dir (before @ (name, File chunks ok) # after) =
        and_then (scanEntries w exts root dir before)
          (and_then
             ([], [CreateReadStream (dir @ [name]), ConsoleError (Md5Failed (dir @ [name]))])
             (scanEntries w exts root dir after))) \<and>
   (name \<noteq> ''node_modules'' \<and> \<not> startsWith_dot name \<longrightarrow>
      scanEntries w exts root dir (before @ (name, Dir es False) # after) =
        and_then (scanEntries w exts root dir before)
          (and_then ([], [Readdir (dir @ [name]), ConsoleError (ScanDirFailed (dir @ [name]))])
             (scanEntries w exts root dir after))) \<and>
   (toLowerCase (extname_path f) \<in> set exts \<and> calculateMD5 w f = None \<longrightarrow>
      scanFoundFiles w exts root (found @ f # found') =
        and_then (scanFoundFiles w exts root found)
          (and_then ([], [CreateReadStream f, ConsoleError (Md5Failed f)])
             (scanFoundFiles w exts root found'))) \<and>
   (findFiles w pat node_modules_exclude = None \<longrightarrow>
      scanPatterns w exts root (pats @ pat # pats') =
        and_then (scanPatterns w exts root pats)
          (and_then ([], [FindFiles pat node_modules_exclude, ConsoleError (PatternFailed pat)])
             (scanPatterns w exts root pats'))) \<and>
   (\<forall>r \<in> set (fst (scanSearchRoots w extensions roots))
          \<union> set (fst (scanImageFilesWithGlob w globPatterns root)).
      calculateMD5 w (filePath r) = Some (md5 r)) \<and>
   (target_of w uri = Some t \<and> existsSync w t \<and>
    toLowerCase (extname_path t) \<in> set (imageExtensions w) \<and> calculateMD5 w t = Some h \<and>
    workspaceFolders w = Some (workspaceRoot # folders) \<longrightarrow>
      fst (checkDuplicates_v1 w uri)
        \<notin> {NoSelection, FileNotFound, NotAnImage, NoWorkspace, IOError} \<and>
      fst (checkDuplicates_v2 w uri)
        \<notin> {NoSelection, FileNotFound, NotAnImage, NoWorkspace, IOError})"
proof (intro conjI impI ballI)
  assume "name \<noteq> ''node_modules'' \<and> \<not> startsWith_dot name \<and>
    toLowerCase (extname name) \<in> set exts \<and> calculateMD5 w (dir @ [name]) = None"
  then show "scanEntries w exts root dir (before @ (name, File chunks ok) # after) =
      and_then (scanEntries w exts root dir before)
        (and_then
           ([], [CreateReadStream (dir @ [name]), ConsoleError (Md5Failed (dir @ [name]))])
           (scanEntries w exts root dir after))"
    by (simp add: scanEntries_append tryHashFile_failed Let_def)
next
  assume "name \<noteq> ''node_modules'' \<and> \<not> startsWith_dot name"
  then show "scanEntries w exts root dir (before @ (name, Dir es False) # after) =
      and_then (scanEntries w exts root dir before)
        (and_then ([], [Readdir (dir @ [name]), ConsoleError (ScanDirFailed (dir @ [name]))])
           (scanEntries w exts root dir after))"
    by (simp add: scanEntries_append Let_def)
next
  assume "toLowerCase (extname_path f) \<in> set exts \<and> calculateMD5 w f = None"
  then show "scanFoundFiles w exts root (found @ f # found') =
      and_then (scanFoundFiles w exts root found)
        (and_then ([], [CreateReadStream f, ConsoleError (Md5Failed f)])
           (scanFoundFiles w exts root found'))"
    by (simp add: scanFoundFiles_append tryHashFile_failed)
next
  assume "findFiles w pat node_modules_exclude = None"
  then show "scanPatterns w exts root (pats @ pat # pats') =
      and_then (scanPatterns w exts root pats)
        (and_then ([], [FindFiles pat node_modules_exclude, ConsoleError (PatternFailed pat)])
           (scanPatterns w exts root pats'))"
    by (simp add: scanPatterns_append)
next
  fix r
  assume "r \<in> set (fst (scanSearchRoots w extensions roots))
      \<union> set (fst (scanImageFilesWithGlob w globPatterns root))"
  then show "calculateMD5 w (filePath r) = Some (md5 r)"
    using scanSearchRoots_hashed scanImageFilesWithGlob_hashed by blast
next
  assume a: "target_of w uri = Some t \<and> existsSync w t \<and>
    toLowerCase (extname_path t) \<in> set (imageExtensions w) \<and> calculateMD5 w t = Some h \<and>
    workspaceFolders w = Some (workspaceRoot # folders)"
  then show "fst (checkDuplicates_v1 w uri)
      \<notin> {NoSelection, FileNotFound, NotAnImage, NoWorkspace, IOError}"
    by (simp add: checkDuplicates_v1_scan reportDuplicates_no_error del: insert_iff)
  from a show "fst (checkDuplicates_v2 w uri)
      \<notin> {NoSelection, FileNotFound, NotAnImage, NoWorkspace, IOError}"
    by (simp add: checkDuplicates_v2_scan reportDuplicates_no_error del: insert_iff)
qed

lemma glob_world_scan:
  "scanImageFilesWithGlob glob_world (searchPaths glob_world) [''ws''] =
     ([\<lparr>filePath = [''ws'', ''a.png''], md5 = hash_digest_hex [0x61, 0x62],
         relativePath = [''a.png'']\<rparr>,
       \<lparr>filePath = [''ws'', ''.cache'', ''a.png''], md5 = hash_digest_hex [0x61, 0x62],
         relativePath = [''.cache'', ''a.png'']\<rparr>,
       \<lparr>filePath = [''ws'', ''docs'', ''B.PNG''], md5 = hash_digest_hex [0x61, 0x62],
         relativePath = [''docs'', ''B.PNG'']\<rparr>],
      [FindFiles ''**/*.png'' ''**/node_modules/**'',
       CreateReadStream [''ws'', ''a.png''], ProgressReport (Scanned [''a.png'']),
       CreateReadStream [''ws'', ''.cache'', ''a.png''],
       ProgressReport (Scanned [''.cache'', ''a.png'']),
       CreateReadStream [''ws'', ''gone.png''], ConsoleError (Md5Failed [''ws'', ''gone.png'']),
       FindFiles ''{broken'' ''**/node_modules/**'', ConsoleError (PatternFailed ''{broken''),
       FindFiles ''docs/**'' ''**/node_modules/**'',
       CreateReadStream [''ws'', ''docs'', ''B.PNG''],
       ProgressReport (Scanned [''docs'', ''B.PNG''])])"
  by (simp add: glob_world_def world_eval hidden_tree_def)

lemma faulty_tree_scan:
  "scanImageFiles (fixture faulty_tree) default_imageExtensions [''ws''] =
     ([\<lparr>filePath = [''ws'', ''a.png''], md5 = hash_digest_hex [0x61, 0x62],
         relativePath = [''a.png'']\<rparr>,
       \<lparr>filePath = [''ws'', ''img'', ''b.png''], md5 = hash_digest_hex [0x61, 0x62],
         relativePath = [''img'', ''b.png'']\<rparr>],
      [Readdir [''ws''], CreateReadStream [''ws'', ''a.png''],
       ProgressReport (Scanned [''a.png'']),
       CreateReadStream [''ws'', ''torn.png''], ConsoleError (Md5Failed [''ws'', ''torn.png'']),
       Readdir [''ws'', ''locked''], ConsoleError (ScanDirFailed [''ws'', ''locked'']),
       Readdir [''ws'', ''img''], CreateReadStream [''ws'', ''img'', ''b.png''],
       ProgressReport (Scanned [''img'', ''b.png''])])"
  by (simp add: world_eval faulty_tree_def)

theorem recoverable_failures_skipped_witness:
  "scanEntries (fixture faulty_tree) default_imageExtensions [''ws''] [''ws'']
       [(''a.png'', File [[0x61, 0x62]] True), (''torn.png'', File [[0x61]] False),
        (''locked'', Dir [(''d.png'', File [[0x61, 0x62]] True)] False)] =
     and_then
       (scanEntries (fixture faulty_tree) default_imageExtensions [''ws''] [''ws'']
          [(''a.png'', File [[0x61, 0x62]] True)])
       (and_then
          ([], [CreateReadStream [''ws'', ''torn.png''],
                ConsoleError (Md5Failed [''ws'', ''torn.png''])])
          (scanEntries (fixture faulty_tree) default_imageExtensions [''ws''] [''ws'']
             [(''locked'', Dir [(''d.png'', File [[0x61, 0x62]] True)] False)])) \<and>
   scanPatterns glob_world default_imageExtensions [''ws''] [''**/*.png'', ''{broken'', ''docs/**''] =
     and_then (scanPatterns glob_world default_imageExtensions [''ws''] [''**/*.png''])
       (and_then
          ([], [FindFiles ''{broken'' node_modules_exclude, ConsoleError (PatternFailed ''{broken'')])
          (scanPatterns glob_world default_imageExtensions [''ws''] [''docs/**''])) \<and>
   fst (checkDuplicates_v1 (fixture faulty_tree) (Some [''ws'', ''a.png''])) =
     DuplicatesFound [\<lparr>filePath = [''ws'', ''img'', ''b.png''],
                       md5 = hash_digest_hex [0x61, 0x62],
                       relativePath = [''img'', ''b.png'']\<rparr>] \<and>
   fst (checkDuplicates_v2 glob_world (Some [''ws'', ''a.png''])) =
     DuplicatesFound [\<lparr>filePath = [''ws'', ''.cache'', ''a.png''],
                       md5 = hash_digest_hex [0x61, 0x62],
                       relativePath = [''.cache'', ''a.png'']\<rparr>,
                      \<lparr>filePath = [''ws'', ''docs'', ''B.PNG''],
                       md5 = hash_digest_hex [0x61, 0x62],
                       relativePath = [''docs'', ''B.PNG'']\<rparr>]"
proof -
  let ?w = "fixture faulty_tree"
  have torn: "''torn.png'' \<noteq> ''node_modules'' \<and> \<not> startsWith_dot ''torn.png'' \<and>
      toLowerCase (extname ''torn.png'') \<in> set default_imageExtensions \<and>
      calculateMD5 ?w ([''ws''] @ [''torn.png'']) = None"
    by (simp add: world_eval faulty_tree_def)
  have broken: "findFiles glob_world ''{broken'' node_modules_exclude = None"
    by (simp add: glob_world_def world_eval)
  from recoverable_failures_skipped [where name = "''torn.png''" and exts = default_imageExtensions
      and w = ?w and dir = "[''ws'']" and root = "[''ws'']"
      and before = "[(''a.png'', File [[0x61, 0x62]] True)]" and chunks = "[[0x61]]" and ok = False
      and after = "[(''locked'', Dir [(''d.png'', File [[0x61, 0x62]] True)] False)]"] torn
  have 1: "scanEntries ?w default_imageExtensions [''ws''] [''ws'']
        [(''a.png'', File [[0x61, 0x62]] True), (''torn.png'', File [[0x61]] False),
         (''locked'', Dir [(''d.png'', File [[0x61, 0x62]] True)] False)] =
      and_then
        (scanEntries ?w default_imageExtensions [''ws''] [''ws'']
           [(''a.png'', File [[0x61, 0x62]] True)])
        (and_then
           ([], [CreateReadStream [''ws'', ''torn.png''],
                 ConsoleError (Md5Failed [''ws'', ''torn.png''])])
           (scanEntries ?w default_imageExtensions [''ws''] [''ws'']
              [(''locked'', Dir [(''d.png'', File [[0x61, 0x62]] True)] False)]))"
    by (simp del: scanEntries.simps)
  from recoverable_failures_skipped [where w = glob_world and pat = "''{broken''"
      and exts = default_imageExtensions and root = "[''ws'']"
      and pats = "[''**/*.png'']" and pats' = "[''docs/**'']"] broken
  have 2: "scanPatterns glob_world default_imageExtensions [''ws'']
        [''**/*.png'', ''{broken'', ''docs/**''] =
      and_then (scanPatterns glob_world default_imageExtensions [''ws''] [''**/*.png''])
        (and_then
           ([], [FindFiles ''{broken'' node_modules_exclude,
                 ConsoleError (PatternFailed ''{broken'')])
           (scanPatterns glob_world default_imageExtensions [''ws''] [''docs/**'']))"
    by (simp del: scanPatterns.simps)
  have 3: "fst (checkDuplicates_v1 ?w (Some [''ws'', ''a.png''])) =
      DuplicatesFound [\<lparr>filePath = [''ws'', ''img'', ''b.png''],
                        md5 = hash_digest_hex [0x61, 0x62],
                        relativePath = [''img'', ''b.png'']\<rparr>]"
    by (simp add: checkDuplicates_v1_def world_eval faulty_tree_def reportDuplicates_def
        findDuplicates_def showDuplicatesQuickPick_def)
  have t: "target_of glob_world (Some [''ws'', ''a.png'']) = Some [''ws'', ''a.png''] \<and>
      existsSync glob_world [''ws'', ''a.png''] \<and>
      toLowerCase (extname_path [''ws'', ''a.png'']) \<in> set (imageExtensions glob_world) \<and>
      calculateMD5 glob_world [''ws'', ''a.png''] = Some (hash_digest_hex [0x61, 0x62]) \<and>
      workspaceFolders glob_world = Some ([''ws''] # [])"
    by (simp add: glob_world_def world_eval hidden_tree_def)
  have 4: "fst (checkDuplicates_v2 glob_world (Some [''ws'', ''a.png''])) =
      DuplicatesFound [\<lparr>filePath = [''ws'', ''.cache'', ''a.png''],
                        md5 = hash_digest_hex [0x61, 0x62],
                        relativePath = [''.cache'', ''a.png'']\<rparr>,
                       \<lparr>filePath = [''ws'', ''docs'', ''B.PNG''],
                        md5 = hash_digest_hex [0x61, 0x62],
                        relativePath = [''docs'', ''B.PNG'']\<rparr>]"
    using t
    by (simp add: checkDuplicates_v2_scan glob_world_scan reportDuplicates_def
        findDuplicates_def showDuplicatesQuickPick_def)
  from 1 2 3 4 show ?thesis by simp
qed

subsection \<open>What the walker accepts\<close>

lemma accepted_files_simps [simp]:
  "accepted_files [] = {}"
  "accepted_files (xs @ ys) = accepted_files xs \<union> accepted_files ys"
  "accepted_files (CreateReadStream p # xs) = insert p (accepted_files xs)"
  "accepted_files (Readdir p # xs) = accepted_files xs"
  "accepted_files (ExistsSync p # xs) = accepted_files xs"
  "accepted_files (FindFiles pat excl # xs) = accepted_files xs"
  "accepted_files (ProgressReport m # xs) = accepted_files xs"
  "accepted_files (ConsoleError l # xs) = accepted_files xs"
  by (auto simp: accepted_files_def)

lemma accepted_tryHashFile [simp]: "accepted_files (snd (tryHashFile w base f)) = {f}"
  by (simp add: tryHashFile_def split: option.splits)

lemma reachable_file_nonempty: "reachable_file n q \<Longrightarrow> q \<noteq> []"
  by (induction rule: reachable_file.induct) simp_all

lemma reachable_file_not_listed [simp]:
  "\<not> reachable_file (File chunks ok) q"
  "\<not> reachable_file (Special chunks ok) q"
  "\<not> reachable_file (Dir es False) q"
  "\<not> reachable_file (Dir [] readable) q"
  by (auto elim: reachable_file.cases)

lemma reachable_file_Cons:
  "reachable_file (Dir ((name, n) # rest) True) q \<longleftrightarrow>
     (name \<noteq> ''node_modules'' \<and> \<not> startsWith_dot name \<and>
        (q = [name] \<and> (\<exists>chunks ok. n = File chunks ok) \<or>
         (\<exists>q'. q = name # q' \<and> reachable_file n q'))) \<or>
     reachable_file (Dir rest True) q"
  (is "?l \<longleftrightarrow> ?r")
proof
  assume ?l
  then show ?r
  proof (cases rule: reachable_file.cases)
    case (here name' chunks ok)
    then show ?thesis
      by (auto intro: reachable_file.here)
  next
    case (below name' d q')
    then show ?thesis
      by (auto intro: reachable_file.below)
  qed
next
  assume r: ?r
  show ?l
  proof (cases "reachable_file (Dir rest True) q")
    case True
    then show ?thesis
    proof (cases rule: reachable_file.cases)
      case (here name' chunks ok)
      then show ?thesis
        using reachable_file.here [of name' chunks ok "(name, n) # rest"] by simp
    next
      case (below name' d q')
      then show ?thesis
        using reachable_file.below [of name' d "(name, n) # rest" q'] by simp
    qed
  next
    case False
    with r have ok: "name \<noteq> ''node_modules''" "\<not> startsWith_dot name"
      and q: "q = [name] \<and> (\<exists>chunks ok. n = File chunks ok) \<or>
         (\<exists>q'. q = name # q' \<and> reachable_file n q')"
      by blast+
    from q show ?thesis
    proof
      assume "q = [name] \<and> (\<exists>chunks ok. n = File chunks ok)"
      then obtain chunks ok' where "q = [name]" "n = File chunks ok'"
        by blast
      then show ?thesis
        using reachable_file.here [of name chunks ok' "(name, n) # rest"] ok by simp
    next
      assume "\<exists>q'. q = name # q' \<and> reachable_file n q'"
      then obtain q' where "q = name # q'" "reachable_file n q'"
        by blast
      then show ?thesis
        using reachable_file.below [of name n "(name, n) # rest" q'] ok by simp
    qed
  qed
qed

lemma image_files_below_not_listed [simp]:
  "image_files_below exts dir (File chunks ok) = {}"
  "image_files_below exts dir (Special chunks ok) = {}"
  "image_files_below exts dir (Dir es False) = {}"
  "image_files_below exts dir (Dir [] readable) = {}"
  by (simp_all add: image_files_below_def)

lemma image_files_below_skip:
  "name = ''node_modules'' \<or> startsWith_dot name \<Longrightarrow>
     image_files_below exts dir (Dir ((name, n) # rest) True) =
       image_files_below exts dir (Dir rest True)"
  by (auto simp: image_files_below_def reachable_file_Cons)

lemma image_files_below_entry:
  assumes "name \<noteq> ''node_modules''" and "\<not> startsWith_dot name"
  shows "image_files_below exts dir (Dir ((name, n) # rest) True) =
     (case n of
        File chunks ok \<Rightarrow> if toLowerCase (extname name) \<in> set exts then {dir @ [name]} else {}
      | Dir es readable \<Rightarrow> image_files_below exts (dir @ [name]) n
      | Special chunks ok \<Rightarrow> {})
     \<union> image_files_below exts dir (Dir rest True)"
proof (cases n)
  case (File chunks ok)
  with assms show ?thesis
    by (auto simp: image_files_below_def reachable_file_Cons)
next
  case (Special chunks ok)
  with assms show ?thesis
    by (auto simp: image_files_below_def reachable_file_Cons)
next
  case (Dir es readable)
  have sub: "{dir @ q | q. (\<exists>q'. q = name # q' \<and> reachable_file n q') \<and>
                 toLowerCase (extname (last q)) \<in> set exts} =
             image_files_below exts (dir @ [name]) n"
    (is "?A = ?B")
  proof (rule set_eqI)
    fix p
    show "p \<in> ?A \<longleftrightarrow> p \<in> ?B"
    proof
      assume "p \<in> ?A"
      then obtain q' where p: "p = dir @ name # q'" and r: "reachable_file n q'"
        and e: "toLowerCase (extname (last (name # q'))) \<in> set exts"
        by blast
      from r have "q' \<noteq> []" by (rule reachable_file_nonempty)
      with e have "toLowerCase (extname (last q')) \<in> set exts" by simp
      with p r show "p \<in> ?B"
        unfolding image_files_below_def by auto
    next
      assume "p \<in> ?B"
      then obtain q' where p: "p = (dir @ [name]) @ q'" and r: "reachable_file n q'"
        and e: "toLowerCase (extname (last q')) \<in> set exts"
        unfolding image_files_below_def by blast
      from r have "q' \<noteq> []" by (rule reachable_file_nonempty)
      with e have "toLowerCase (extname (last (name # q'))) \<in> set exts" by simp
      with p r show "p \<in> ?A" by auto
    qed
  qed
  have "image_files_below exts dir (Dir ((name, n) # rest) True) =
      ?A \<union> image_files_below exts dir (Dir rest True)"
    using assms Dir unfolding image_files_below_def reachable_file_Cons by blast
  with sub Dir show ?thesis by simp
qed

lemma walk_accepts:
  "accepted_files (snd (scanDirectory w exts root dir n)) = image_files_below exts dir n"
  "accepted_files (snd (scanEntries w exts root dir es)) = image_files_below exts dir (Dir es True)"
proof (induction w exts root dir n and w exts root dir es rule: scanDirectory_scanEntries.induct)
  case (1 w exts rootPath dirPath es readable)
  then show ?case by simp
next
  case (5 w exts rootPath dirPath name n rest)
  show ?case
  proof (cases "name = ''node_modules'' \<or> startsWith_dot name")
    case True
    with 5 show ?thesis
      by (simp add: image_files_below_skip)
  next
    case False
    with 5 show ?thesis
      by (cases n) (simp_all add: image_files_below_entry Let_def)
  qed
qed simp_all

lemma scanFoundFiles_accepts:
  "accepted_files (snd (scanFoundFiles w exts root files)) =
     {f \<in> set files. toLowerCase (extname_path f) \<in> set exts}"
  by (induction files) auto

lemma scanPatterns_accepts:
  "accepted_files (snd (scanPatterns w exts root patterns)) = image_files_found w exts patterns"
proof (induction patterns)
  case Nil
  show ?case by (simp add: image_files_found_def)
next
  case (Cons pattern patterns)
  have "image_files_found w exts (pattern # patterns) =
      (case findFiles w pattern node_modules_exclude of
         None \<Rightarrow> {}
       | Some files \<Rightarrow> {f \<in> set files. toLowerCase (extname_path f) \<in> set exts})
      \<union> image_files_found w exts patterns"
    by (auto simp: image_files_found_def split: option.splits)
  with Cons show ?case
    by (simp add: scanFoundFiles_accepts split: option.splits)
qed

lemma tryHashFile_paths:
  "filePath ` set (fst (tryHashFile w base f)) = {p \<in> {f}. calculateMD5 w p \<noteq> None}"
  by (auto simp: tryHashFile_def split: option.splits)

lemma walk_records:
  "filePath ` set (fst (scanDirectory w exts root dir n)) =
     {p \<in> accepted_files (snd (scanDirectory w exts root dir n)). calculateMD5 w p \<noteq> None}"
  "filePath ` set (fst (scanEntries w exts root dir es)) =
     {p \<in> accepted_files (snd (scanEntries w exts root dir es)). calculateMD5 w p \<noteq> None}"
proof (induction w exts root dir n and w exts root dir es rule: scanDirectory_scanEntries.induct)
  case (5 w exts rootPath dirPath name n rest)
  show ?case
  proof (cases "name = ''node_modules'' \<or> startsWith_dot name")
    case True
    with 5 show ?thesis by simp
  next
    case False
    show ?thesis
    proof (cases n)
      case (File chunks ok)
      with 5 False show ?thesis
        by (auto simp: Let_def image_Un tryHashFile_paths)
    next
      case (Dir es readable)
      with 5(2) [OF refl False Dir] 5(3) [OF refl False] False show ?thesis
        by (simp add: Let_def image_Un del: scanDirectory.simps) blast
    next
      case (Special chunks ok)
      with 5 False show ?thesis by simp
    qed
  qed
qed simp_all

lemma scanFoundFiles_records:
  "filePath ` set (fst (scanFoundFiles w exts root files)) =
     {p \<in> accepted_files (snd (scanFoundFiles w exts root files)). calculateMD5 w p \<noteq> None}"
  by (induction files) (auto simp: image_Un tryHashFile_paths)

lemma scanPatterns_records:
  "filePath ` set (fst (scanPatterns w exts root patterns)) =
     {p \<in> accepted_files (snd (scanPatterns w exts root patterns)). calculateMD5 w p \<noteq> None}"
proof (induction patterns)
  case Nil
  show ?case by simp
next
  case (Cons pattern patterns)
  then show ?case
    using scanFoundFiles_records [of w exts root]
    by (simp add: image_Un split: option.splits) blast
qed

text \<open>
  C4. In the recursive walk, the files opened for hashing are exactly the regular files that are
  reached from the root through listable directories, skipping the excluded names, and whose
  lower-cased extension is among the lower-cased configured extensions. In pattern mode they
  are exactly the paths the resolver returned for some configured pattern that pass the same
  test on their extension. In both modes the records are those of the accepted files whose hash
  succeeds.
\<close>

theorem walker_accepts_exactly_images:
  "(lookup (fs_root w) root = Some n \<longrightarrow>
      accepted_files (snd (scanImageFiles w extensions root)) =
        image_files_below (map toLowerCase extensions) root n \<and>
      filePath ` set (fst (scanImageFiles w extensions root)) =
        {p \<in> image_files_below (map toLowerCase extensions) root n. calculateMD5 w p \<noteq> None} \<and>
      scanImageFilesWithGlob w [] root = scanImageFiles w (imageExtensions w) root) \<and>
   (globPatterns \<noteq> [] \<longrightarrow>
      accepted_files (snd (scanImageFilesWithGlob w globPatterns root)) =
        image_files_found w (map toLowerCase (imageExtensions w)) globPatterns \<and>
      filePath ` set (fst (scanImageFilesWithGlob w globPatterns root)) =
        {p \<in> image_files_found w (map toLowerCase (imageExtensions w)) globPatterns.
           calculateMD5 w p \<noteq> None})"
proof (intro conjI impI)
  assume n: "lookup (fs_root w) root = Some n"
  then have scan: "scanImageFiles w extensions root =
      scanDirectory w (map toLowerCase extensions) root root n"
    by (simp add: scanImageFiles_def)
  show acc: "accepted_files (snd (scanImageFiles w extensions root)) =
      image_files_below (map toLowerCase extensions) root n"
    unfolding scan by (rule walk_accepts)
  show "filePath ` set (fst (scanImageFiles w extensions root)) =
      {p \<in> image_files_below (map toLowerCase extensions) root n. calculateMD5 w p \<noteq> None}"
    unfolding acc [symmetric] unfolding scan by (rule walk_records)
  show "scanImageFilesWithGlob w [] root = scanImageFiles w (imageExtensions w) root"
    by (simp add: scanImageFilesWithGlob_def scanImageFilesDefault_def)
next
  assume ne: "globPatterns \<noteq> []"
  then have scan: "scanImageFilesWithGlob w globPatterns root =
      scanPatterns w (map toLowerCase (imageExtensions w)) root globPatterns"
    by (simp add: scanImageFilesWithGlob_def)
  show acc: "accepted_files (snd (scanImageFilesWithGlob w globPatterns root)) =
      image_files_found w (map toLowerCase (imageExtensions w)) globPatterns"
    unfolding scan by (rule scanPatterns_accepts)
  show "filePath ` set (fst (scanImageFilesWithGlob w globPatterns root)) =
      {p \<in> image_files_found w (map toLowerCase (imageExtensions w)) globPatterns.
         calculateMD5 w p \<noteq> None}"
    unfolding acc [symmetric] unfolding scan by (rule scanPatterns_records)
qed

theorem walker_accepts_exactly_images_witness:
  "image_files_below (map toLowerCase default_imageExtensions) [''ws'']
       (Dir [(''a.png'', File [[0x61, 0x62]] True),
             (''.icon.png'', File [[0x61, 0x62]] True),
             (''.cache'', Dir [(''a.png'', File [[0x61, 0x62]] True)] True),
             (''node_modules'',
                Dir [(''pkg'', Dir [(''logo.png'', File [[0x61, 0x62]] True)] True)] True),
             (''docs'', Dir [(''readme.md'', File [[0x62, 0x61]] True),
                             (''B.PNG'', File [[0x61], [0x62]] True)] True),
             (''link.png'', Special [[0x61, 0x62]] True)] True) =
     {[''ws'', ''a.png''], [''ws'', ''docs'', ''B.PNG'']} \<and>
   image_files_found glob_world (map toLowerCase (imageExtensions glob_world))
       [''**/*.png'', ''{broken'', ''docs/**''] =
     {[''ws'', ''a.png''], [''ws'', ''.cache'', ''a.png''], [''ws'', ''gone.png''],
      [''ws'', ''docs'', ''B.PNG'']} \<and>
   filePath ` set (fst (scanImageFilesWithGlob glob_world [''**/*.png'', ''{broken'', ''docs/**'']
       [''ws''])) =
     {[''ws'', ''a.png''], [''ws'', ''.cache'', ''a.png''], [''ws'', ''docs'', ''B.PNG'']}"
proof -
  let ?ws = "Dir [(''a.png'', File [[0x61, 0x62]] True),
             (''.icon.png'', File [[0x61, 0x62]] True),
             (''.cache'', Dir [(''a.png'', File [[0x61, 0x62]] True)] True),
             (''node_modules'',
                Dir [(''pkg'', Dir [(''logo.png'', File [[0x61, 0x62]] True)] True)] True),
             (''docs'', Dir [(''readme.md'', File [[0x62, 0x61]] True),
                             (''B.PNG'', File [[0x61], [0x62]] True)] True),
             (''link.png'', Special [[0x61, 0x62]] True)] True"
  have n: "lookup (fs_root (fixture hidden_tree)) [''ws''] = Some ?ws"
    by (simp add: fixture_def hidden_tree_def)
  have ne: "[''**/*.png'', ''{broken'', ''docs/**''] \<noteq> []"
    by simp
  have sp: "searchPaths glob_world = [''**/*.png'', ''{broken'', ''docs/**'']"
    by (simp add: glob_world_def searchPaths_def fixture_def)
  note t1 = walker_accepts_exactly_images [where w = "fixture hidden_tree" and root = "[''ws'']"
      and n = ?ws and extensions = default_imageExtensions, THEN conjunct1, rule_format, OF n]
  from t1 have "accepted_files (snd (scanImageFiles (fixture hidden_tree) default_imageExtensions
        [''ws''])) = image_files_below (map toLowerCase default_imageExtensions) [''ws''] ?ws"
    by (rule conjunct1)
  then have 1: "image_files_below (map toLowerCase default_imageExtensions) [''ws''] ?ws =
      {[''ws'', ''a.png''], [''ws'', ''docs'', ''B.PNG'']}"
    by (simp add: hidden_tree_scan)
  note t2 = walker_accepts_exactly_images [where w = glob_world
      and globPatterns = "[''**/*.png'', ''{broken'', ''docs/**'']" and root = "[''ws'']",
      THEN conjunct2, rule_format, OF ne]
  note scan = glob_world_scan [unfolded sp]
  from t2 have g: "accepted_files (snd (scanImageFilesWithGlob glob_world
          [''**/*.png'', ''{broken'', ''docs/**''] [''ws''])) =
        image_files_found glob_world (map toLowerCase (imageExtensions glob_world))
          [''**/*.png'', ''{broken'', ''docs/**'']"
    by (rule conjunct1)
  have 2: "image_files_found glob_world (map toLowerCase (imageExtensions glob_world))
        [''**/*.png'', ''{broken'', ''docs/**''] =
      {[''ws'', ''a.png''], [''ws'', ''.cache'', ''a.png''], [''ws'', ''gone.png''],
       [''ws'', ''docs'', ''B.PNG'']}"
    unfolding g [symmetric] by (simp add: scan)
  have 3: "filePath ` set (fst (scanImageFilesWithGlob glob_world
        [''**/*.png'', ''{broken'', ''docs/**''] [''ws''])) =
      {[''ws'', ''a.png''], [''ws'', ''.cache'', ''a.png''], [''ws'', ''docs'', ''B.PNG'']}"
    by (simp add: scan)
  from 1 2 3 show ?thesis by simp
qed

subsection \<open>How the search paths are read\<close>

lemma findFiles_calls_append [simp]:
  "findFiles_calls (xs @ ys) = findFiles_calls xs @ findFiles_calls ys"
  by (induction xs rule: findFiles_calls.induct) simp_all

lemma readdir_calls_append [simp]:
  "readdir_calls (xs @ ys) = readdir_calls xs @ readdir_calls ys"
  by (induction xs rule: readdir_calls.induct) simp_all

lemma calls_tryHashFile [simp]:
  "findFiles_calls (snd (tryHashFile w base f)) = []"
  "readdir_calls (snd (tryHashFile w base f)) = []"
  by (simp_all add: tryHashFile_def split: option.splits)

lemma walk_no_findFiles:
  "findFiles_calls (snd (scanDirectory w exts root dir n)) = []"
  "findFiles_calls (snd (scanEntries w exts root dir es)) = []"
  by (induction w exts root dir n and w exts root dir es rule: scanDirectory_scanEntries.induct)
     (auto simp: Let_def split: fsnode.splits)

lemma scanImageFiles_no_findFiles [simp]:
  "findFiles_calls (snd (scanImageFiles w extensions root)) = []"
  by (simp add: scanImageFiles_def walk_no_findFiles split: option.splits)

lemma scanImageFiles_readdir_root:
  "\<exists>more. readdir_calls (snd (scanImageFiles w extensions root)) = root # more"
  by (cases "lookup (fs_root w) root"; cases "the (lookup (fs_root w) root)")
     (auto simp: scanImageFiles_def)

lemma scanSearchRoots_no_findFiles [simp]:
  "findFiles_calls (snd (scanSearchRoots w extensions roots)) = []"
  by (induction roots) simp_all

lemma scanSearchRoots_readdir:
  "set (filter (existsSync w) roots) \<subseteq> set (readdir_calls (snd (scanSearchRoots w extensions roots)))"
proof (induction roots)
  case Nil
  show ?case by simp
next
  case (Cons r roots)
  obtain more where "readdir_calls (snd (scanImageFiles w extensions r)) = r # more"
    using scanImageFiles_readdir_root by blast
  with Cons show ?case by auto
qed

lemma scanFoundFiles_calls [simp]:
  "findFiles_calls (snd (scanFoundFiles w exts root files)) = []"
  "readdir_calls (snd (scanFoundFiles w exts root files)) = []"
  by (induction files) simp_all

lemma scanPatterns_calls:
  "findFiles_calls (snd (scanPatterns w exts root patterns)) =
     map (\<lambda>p. (p, node_modules_exclude)) patterns"
  "readdir_calls (snd (scanPatterns w exts root patterns)) = []"
  by (induction patterns) (simp_all split: option.splits)

lemma checkDuplicates_v1_no_findFiles:
  "findFiles_calls (snd (checkDuplicates_v1 w uri)) = []"
  using v1_cases [of w uri] by auto

text \<open>
  C2, as claimed, fails on v1: with the search path \<^verbatim>\<open>img\<close> configured, v1 never asks the
  resolver; it lists the directory \<^verbatim>\<open>/ws/img\<close> and finds the copy there. On the same world v2
  hands \<^verbatim>\<open>img\<close> to the resolver, which finds no file of that name.
\<close>

theorem searchPaths_as_directories_v1:
  "searchPaths literal_dirs_world = [''img''] \<and>
   findFiles_calls (snd (checkDuplicates_v1 literal_dirs_world (Some [''ws'', ''a.png'']))) = [] \<and>
   readdir_calls (snd (checkDuplicates_v1 literal_dirs_world (Some [''ws'', ''a.png''])))
     = [[''ws'', ''img'']] \<and>
   fst (checkDuplicates_v1 literal_dirs_world (Some [''ws'', ''a.png''])) =
     DuplicatesFound [\<lparr>filePath = [''ws'', ''img'', ''b.png''],
                       md5 = hash_digest_hex [0x61, 0x62], relativePath = [''b.png'']\<rparr>] \<and>
   findFiles_calls (snd (checkDuplicates_v2 literal_dirs_world (Some [''ws'', ''a.png''])))
     = [(''img'', ''**/node_modules/**'')] \<and>
   fst (checkDuplicates_v2 literal_dirs_world (Some [''ws'', ''a.png''])) = NoneFound"
  using digest_ab_ba
  by (simp add: literal_dirs_world_def checkDuplicates_v1_def checkDuplicates_v2_def world_eval
      copies_tree_def reportDuplicates_def findDuplicates_def showDuplicatesQuickPick_def)

text \<open>
  C2, amended. With a non-empty list of search paths, v2 hands each entry, in order, to the
  resolver as an include pattern together with the exclusion \<^verbatim>\<open>**/node_modules/**\<close>, and lists
  no directory; v1 joins each entry to the workspace root, walks those of the resulting
  directories that exist, and never asks the resolver. With an empty list, both revisions walk
  the workspace root (v1 after checking that it exists).
\<close>

theorem searchPaths_interpretation:
  "(searchPaths w \<noteq> [] \<longrightarrow>
      findFiles_calls (snd (scanImageFilesWithGlob w (searchPaths w) root)) =
        map (\<lambda>p. (p, ''**/node_modules/**'')) (searchPaths w) \<and>
      readdir_calls (snd (scanImageFilesWithGlob w (searchPaths w) root)) = [] \<and>
      searchRoots_v1 w root = map (path_join root) (searchPaths w) \<and>
      fst (scanSearchRoots w (imageExtensions w) (searchRoots_v1 w root)) =
        concat (map (\<lambda>r. fst (scanImageFiles w (imageExtensions w) r))
          (filter (existsSync w) (map (path_join root) (searchPaths w)))) \<and>
      set (filter (existsSync w) (map (path_join root) (searchPaths w)))
        \<subseteq> set (readdir_calls
                 (snd (scanSearchRoots w (imageExtensions w) (searchRoots_v1 w root))))) \<and>
   (searchPaths w = [] \<longrightarrow>
      scanImageFilesWithGlob w (searchPaths w) root = scanImageFiles w (imageExtensions w) root \<and>
      scanSearchRoots w (imageExtensions w) (searchRoots_v1 w root) =
        (if existsSync w root then
           and_then ([], [ExistsSync root]) (scanImageFiles w (imageExtensions w) root)
         else ([], [ExistsSync root]))) \<and>
   findFiles_calls (snd (checkDuplicates_v1 w uri)) = []"
proof (intro conjI impI)
  assume ne: "searchPaths w \<noteq> []"
  then have scan: "scanImageFilesWithGlob w (searchPaths w) root =
      scanPatterns w (map toLowerCase (imageExtensions w)) root (searchPaths w)"
    by (simp add: scanImageFilesWithGlob_def)
  show "findFiles_calls (snd (scanImageFilesWithGlob w (searchPaths w) root)) =
      map (\<lambda>p. (p, ''**/node_modules/**'')) (searchPaths w)"
    unfolding scan by (simp add: scanPatterns_calls node_modules_exclude_def)
  show "readdir_calls (snd (scanImageFilesWithGlob w (searchPaths w) root)) = []"
    unfolding scan by (rule scanPatterns_calls)
  from ne show roots: "searchRoots_v1 w root = map (path_join root) (searchPaths w)"
    by (simp add: searchRoots_v1_def)
  show "fst (scanSearchRoots w (imageExtensions w) (searchRoots_v1 w root)) =
      concat (map (\<lambda>r. fst (scanImageFiles w (imageExtensions w) r))
        (filter (existsSync w) (map (path_join root) (searchPaths w))))"
    unfolding roots by (rule scanSearchRoots_records)
  show "set (filter (existsSync w) (map (path_join root) (searchPaths w)))
      \<subseteq> set (readdir_calls
               (snd (scanSearchRoots w (imageExtensions w) (searchRoots_v1 w root))))"
    unfolding roots by (rule scanSearchRoots_readdir)
next
  assume e: "searchPaths w = []"
  then show "scanImageFilesWithGlob w (searchPaths w) root =
      scanImageFiles w (imageExtensions w) root"
    by (simp add: scanImageFilesWithGlob_def scanImageFilesDefault_def)
  from e show "scanSearchRoots w (imageExtensions w) (searchRoots_v1 w root) =
      (if existsSync w root then
         and_then ([], [ExistsSync root]) (scanImageFiles w (imageExtensions w) root)
       else ([], [ExistsSync root]))"
    by (simp add: searchRoots_v1_def)
next
  show "findFiles_calls (snd (checkDuplicates_v1 w uri)) = []"
    by (rule checkDuplicates_v1_no_findFiles)
qed

theorem searchPaths_interpretation_witness:
  "findFiles_calls (snd (scanImageFilesWithGlob glob_world (searchPaths glob_world) [''ws''])) =
     [(''**/*.png'', ''**/node_modules/**''), (''{broken'', ''**/node_modules/**''),
      (''docs/**'', ''**/node_modules/**'')] \<and>
   readdir_calls (snd (scanImageFilesWithGlob glob_world (searchPaths glob_world) [''ws''])) = [] \<and>
   searchRoots_v1 literal_dirs_world [''ws''] = [[''ws'', ''img'']] \<and>
   scanImageFilesWithGlob (fixture copies_tree) (searchPaths (fixture copies_tree)) [''ws''] =
     scanImageFiles (fixture copies_tree) (imageExtensions (fixture copies_tree)) [''ws''] \<and>
   scanSearchRoots (fixture copies_tree) (imageExtensions (fixture copies_tree))
       (searchRoots_v1 (fixture copies_tree) [''ws'']) =
     and_then ([], [ExistsSync [''ws'']])
       (scanImageFiles (fixture copies_tree) (imageExtensions (fixture copies_tree)) [''ws''])"
proof -
  have g: "searchPaths glob_world \<noteq> []"
    and gs: "searchPaths glob_world = [''**/*.png'', ''{broken'', ''docs/**'']"
    by (simp_all add: glob_world_def searchPaths_def fixture_def)
  have l: "searchPaths literal_dirs_world \<noteq> []"
    and ls: "searchPaths literal_dirs_world = [''img'']"
    by (simp_all add: literal_dirs_world_def searchPaths_def fixture_def)
  have c: "searchPaths (fixture copies_tree) = []"
    by (simp add: searchPaths_def fixture_def)
  have ex: "existsSync (fixture copies_tree) [''ws'']"
    by (simp add: world_eval copies_tree_def)
  note tg = searchPaths_interpretation [where w = glob_world and root = "[''ws'']",
      THEN conjunct1, rule_format, OF g]
  note tl = searchPaths_interpretation [where w = literal_dirs_world and root = "[''ws'']",
      THEN conjunct1, rule_format, OF l]
  note tc = searchPaths_interpretation [where w = "fixture copies_tree" and root = "[''ws'']",
      THEN conjunct2, THEN conjunct1, rule_format, OF c]
  from tg have 1: "findFiles_calls
        (snd (scanImageFilesWithGlob glob_world (searchPaths glob_world) [''ws''])) =
      [(''**/*.png'', ''**/node_modules/**''), (''{broken'', ''**/node_modules/**''),
       (''docs/**'', ''**/node_modules/**'')]"
    by (simp add: gs)
  from tg have 2: "readdir_calls
        (snd (scanImageFilesWithGlob glob_world (searchPaths glob_world) [''ws''])) = []"
    by simp
  from tl have 3: "searchRoots_v1 literal_dirs_world [''ws''] = [[''ws'', ''img'']]"
    by (simp add: ls path_join_def)
  from tc ex have 4: "scanImageFilesWithGlob (fixture copies_tree)
        (searchPaths (fixture copies_tree)) [''ws''] =
      scanImageFiles (fixture copies_tree) (imageExtensions (fixture copies_tree)) [''ws''] \<and>
    scanSearchRoots (fixture copies_tree) (imageExtensions (fixture copies_tree))
        (searchRoots_v1 (fixture copies_tree) [''ws'']) =
      and_then ([], [ExistsSync [''ws'']])
        (scanImageFiles (fixture copies_tree) (imageExtensions (fixture copies_tree)) [''ws''])"
    by simp
  from 1 2 3 4 show ?thesis by simp
qed

subsection \<open>Excluded directories\<close>

lemma path_relative_append: "path_relative root (root @ q) = q"
  by (induction root) simp_all

lemma walk_records_relative:
  "\<forall>r \<in> set (fst (scanDirectory w exts root dir n)).
     relativePath r = path_relative root (filePath r)"
  "\<forall>r \<in> set (fst (scanEntries w exts root dir es)).
     relativePath r = path_relative root (filePath r)"
  by (induction w exts root dir n and w exts root dir es rule: scanDirectory_scanEntries.induct)
     (auto split: fsnode.splits if_splits simp: Let_def dest: tryHashFile_record)

lemma scanImageFiles_relative:
  assumes "r \<in> set (fst (scanImageFiles w extensions root))"
  shows "filePath r = root @ relativePath r"
proof -
  from assms have "clean_below root (filePath r)"
    by (rule scanImageFiles_records_clean)
  then have "take (length root) (filePath r) = root"
    by (simp add: clean_below_def)
  then have split: "filePath r = root @ drop (length root) (filePath r)"
    by (metis append_take_drop_id)
  from assms have "relativePath r = path_relative root (filePath r)"
    using walk_records_relative(1) [of w "map toLowerCase extensions" root root]
    by (auto simp: scanImageFiles_def split: option.splits)
  then have "relativePath r = drop (length root) (filePath r)"
    using split path_relative_append by metis
  with split show ?thesis by simp
qed

lemma scanFoundFiles_found:
  "r \<in> set (fst (scanFoundFiles w exts root files)) \<Longrightarrow>
     filePath r \<in> set files \<and> relativePath r = path_relative root (filePath r)"
  by (induction files) (auto split: if_splits dest: tryHashFile_record)

lemma scanPatterns_found:
  "r \<in> set (fst (scanPatterns w exts root patterns)) \<Longrightarrow>
     relativePath r = path_relative root (filePath r) \<and>
     (\<exists>pattern files. pattern \<in> set patterns \<and>
        findFiles w pattern node_modules_exclude = Some files \<and> filePath r \<in> set files)"
proof (induction patterns)
  case Nil
  then show ?case by simp
next
  case (Cons pattern patterns)
  from Cons.prems consider
      (head) files where "findFiles w pattern node_modules_exclude = Some files"
        and "r \<in> set (fst (scanFoundFiles w exts root files))"
    | (tail) "r \<in> set (fst (scanPatterns w exts root patterns))"
    by (auto split: option.splits)
  then show ?case
  proof cases
    case head
    then show ?thesis
      using scanFoundFiles_found [of r w exts root files] by auto
  next
    case tail
    with Cons.IH show ?thesis by auto
  qed
qed

text \<open>
  C5, as claimed, fails in pattern mode: the resolver, asked for \<^verbatim>\<open>**/*.png\<close> without what is
  below \<^verbatim>\<open>node_modules\<close>, returns \<^verbatim>\<open>/ws/.cache/a.png\<close>; the scan records it and the handler
  reports it, although it lies under a directory whose name starts with a dot.
\<close>

theorem dot_directory_found_by_pattern:
  "findFiles glob_world ''**/*.png'' ''**/node_modules/**'' =
     Some [[''ws'', ''a.png''], [''ws'', ''.cache'', ''a.png''], [''ws'', ''gone.png'']] \<and>
   [''ws'', ''.cache'', ''a.png'']
     \<in> filePath ` set (fst (scanImageFilesWithGlob glob_world (searchPaths glob_world) [''ws''])) \<and>
   startsWith_dot ''.cache'' \<and>
   fst (checkDuplicates_v2 glob_world (Some [''ws'', ''a.png''])) =
     DuplicatesFound [\<lparr>filePath = [''ws'', ''.cache'', ''a.png''],
                       md5 = hash_digest_hex [0x61, 0x62],
                       relativePath = [''.cache'', ''a.png'']\<rparr>,
                      \<lparr>filePath = [''ws'', ''docs'', ''B.PNG''],
                       md5 = hash_digest_hex [0x61, 0x62],
                       relativePath = [''docs'', ''B.PNG'']\<rparr>]"
proof -
  have t: "target_of glob_world (Some [''ws'', ''a.png'']) = Some [''ws'', ''a.png'']"
    "existsSync glob_world [''ws'', ''a.png'']"
    "toLowerCase (extname_path [''ws'', ''a.png'']) \<in> set (imageExtensions glob_world)"
    "calculateMD5 glob_world [''ws'', ''a.png''] = Some (hash_digest_hex [0x61, 0x62])"
    "workspaceFolders glob_world = Some ([''ws''] # [])"
    by (simp_all add: glob_world_def world_eval hidden_tree_def)
  have "findFiles glob_world ''**/*.png'' ''**/node_modules/**'' =
      Some [[''ws'', ''a.png''], [''ws'', ''.cache'', ''a.png''], [''ws'', ''gone.png'']]"
    by (simp add: glob_world_def fixture_def)
  moreover have "[''ws'', ''.cache'', ''a.png'']
      \<in> filePath ` set (fst (scanImageFilesWithGlob glob_world (searchPaths glob_world) [''ws'']))"
    by (simp add: glob_world_scan)
  moreover have "fst (checkDuplicates_v2 glob_world (Some [''ws'', ''a.png''])) =
      DuplicatesFound [\<lparr>filePath = [''ws'', ''.cache'', ''a.png''],
                        md5 = hash_digest_hex [0x61, 0x62],
                        relativePath = [''.cache'', ''a.png'']\<rparr>,
                       \<lparr>filePath = [''ws'', ''docs'', ''B.PNG''],
                        md5 = hash_digest_hex [0x61, 0x62],
                        relativePath = [''docs'', ''B.PNG'']\<rparr>]"
    by (simp add: checkDuplicates_v2_scan [OF t] glob_world_scan reportDuplicates_def
        findDuplicates_def showDuplicatesQuickPick_def)
  ultimately show ?thesis by simp
qed

text \<open>
  C5, amended. In the recursive walk, every record lies below the walked root, and no directory
  on its path below the root is named \<^verbatim>\<open>node_modules\<close> or starts with a dot: both exclusions
  are applied to each entry of each directory listed. In pattern mode, every call of the
  resolver carries the one exclusion pattern \<^verbatim>\<open>**/node_modules/**\<close>; when the resolver
  honours it for the configured patterns, no record lies under a \<^verbatim>\<open>node_modules\<close> directory
  of the workspace. (Pattern mode has no test for names that start with a dot.)
\<close>

theorem excluded_directories:
  "(\<forall>r \<in> set (fst (scanImageFiles w extensions root)).
      filePath r = root @ relativePath r \<and>
      (\<forall>c \<in> set (butlast (relativePath r)). c \<noteq> ''node_modules'' \<and> \<not> startsWith_dot c)) \<and>
   (name = ''node_modules'' \<or> startsWith_dot name \<longrightarrow>
      scanEntries w exts root dir ((name, n) # rest) = scanEntries w exts root dir rest) \<and>
   (\<forall>call \<in> set (findFiles_calls (snd (scanImageFilesWithGlob w globPatterns root))).
      snd call = ''**/node_modules/**'') \<and>
   (globPatterns \<noteq> [] \<and>
    (\<forall>pattern \<in> set globPatterns. \<forall>files.
       findFiles w pattern ''**/node_modules/**'' = Some files \<longrightarrow>
       (\<forall>f \<in> set files. ''node_modules'' \<notin> set (butlast (path_relative root f)))) \<longrightarrow>
    (\<forall>r \<in> set (fst (scanImageFilesWithGlob w globPatterns root)).
       relativePath r = path_relative root (filePath r) \<and>
       ''node_modules'' \<notin> set (butlast (relativePath r))))"
proof (intro conjI impI ballI)
  fix r
  assume r: "r \<in> set (fst (scanImageFiles w extensions root))"
  then show split: "filePath r = root @ relativePath r"
    by (rule scanImageFiles_relative)
  from r have "clean_below root (filePath r)"
    by (rule scanImageFiles_records_clean)
  then have "\<forall>c \<in> set (drop (length root) (filePath r)).
      c \<noteq> ''node_modules'' \<and> \<not> startsWith_dot c"
    by (simp add: clean_below_def)
  moreover have "drop (length root) (filePath r) = relativePath r"
    by (subst split) simp
  ultimately have all: "\<forall>c \<in> set (relativePath r). c \<noteq> ''node_modules'' \<and> \<not> startsWith_dot c"
    by simp
  fix c
  assume "c \<in> set (butlast (relativePath r))"
  then have "c \<in> set (relativePath r)"
    by (rule in_set_butlastD)
  with all show "c \<noteq> ''node_modules''" and "\<not> startsWith_dot c"
    by simp_all
next
  assume "name = ''node_modules'' \<or> startsWith_dot name"
  then show "scanEntries w exts root dir ((name, n) # rest) = scanEntries w exts root dir rest"
    by simp
next
  fix call
  assume "call \<in> set (findFiles_calls (snd (scanImageFilesWithGlob w globPatterns root)))"
  then show "snd call = ''**/node_modules/**''"
    by (auto simp: scanImageFilesWithGlob_def scanImageFilesDefault_def scanPatterns_calls
        node_modules_exclude_def split: if_splits)
next
  fix r
  assume a: "globPatterns \<noteq> [] \<and>
    (\<forall>pattern \<in> set globPatterns. \<forall>files.
       findFiles w pattern ''**/node_modules/**'' = Some files \<longrightarrow>
       (\<forall>f \<in> set files. ''node_modules'' \<notin> set (butlast (path_relative root f))))"
    and r: "r \<in> set (fst (scanImageFilesWithGlob w globPatterns root))"
  from a r have "r \<in> set (fst (scanPatterns w (map toLowerCase (imageExtensions w)) root
      globPatterns))"
    by (simp add: scanImageFilesWithGlob_def)
  then have found: "relativePath r = path_relative root (filePath r) \<and>
      (\<exists>pattern files. pattern \<in> set globPatterns \<and>
         findFiles w pattern ''**/node_modules/**'' = Some files \<and> filePath r \<in> set files)"
    by (rule scanPatterns_found [unfolded node_modules_exclude_def])
  then have rel: "relativePath r = path_relative root (filePath r)"
    by simp
  from found obtain pattern files where p: "pattern \<in> set globPatterns"
    and f: "findFiles w pattern ''**/node_modules/**'' = Some files" "filePath r \<in> set files"
    by blast
  show "relativePath r = path_relative root (filePath r)"
    by (rule rel)
  from a p f have "''node_modules'' \<notin> set (butlast (path_relative root (filePath r)))"
    by blast
  then show "''node_modules'' \<notin> set (butlast (relativePath r))"
    by (simp add: rel)
qed

theorem excluded_directories_witness:
  "[''ws'', ''.cache'', ''a.png'']
     \<notin> filePath ` set (fst (scanImageFiles (fixture hidden_tree) default_imageExtensions [''ws''])) \<and>
   [''ws'', ''node_modules'', ''pkg'', ''logo.png'']
     \<notin> filePath ` set (fst (scanImageFiles (fixture hidden_tree) default_imageExtensions [''ws''])) \<and>
   [''ws'', ''node_modules'', ''pkg'', ''logo.png'']
     \<notin> filePath ` set (fst (scanImageFilesWithGlob glob_world
           [''**/*.png'', ''{broken'', ''docs/**''] [''ws''])) \<and>
   lookup hidden_tree [''ws'', ''node_modules'', ''pkg'', ''logo.png'']
     = Some (File [[0x61, 0x62]] True)"
proof -
  let ?scan = "scanImageFiles (fixture hidden_tree) default_imageExtensions [''ws'']"
  let ?pats = "[''**/*.png'', ''{broken'', ''docs/**'']"
  let ?glob = "scanImageFilesWithGlob glob_world ?pats [''ws'']"
  note t = excluded_directories [where w = "fixture hidden_tree"
      and extensions = default_imageExtensions and root = "[''ws'']"]
  note g = excluded_directories [where w = glob_world and globPatterns = ?pats
      and root = "[''ws'']"]
  have below: "p \<notin> filePath ` set (fst ?scan)"
    if "\<exists>c \<in> set (butlast (drop 1 p)). c = ''node_modules'' \<or> startsWith_dot c" for p
  proof
    assume "p \<in> filePath ` set (fst ?scan)"
    then obtain r where r: "r \<in> set (fst ?scan)" and p: "filePath r = p"
      by auto
    from t r have split: "filePath r = [''ws''] @ relativePath r"
      and clean: "\<forall>c \<in> set (butlast (relativePath r)). c \<noteq> ''node_modules'' \<and> \<not> startsWith_dot c"
      by blast+
    from split p have "drop 1 p = relativePath r"
      by simp
    with clean that show False by auto
  qed
  have 1: "[''ws'', ''.cache'', ''a.png''] \<notin> filePath ` set (fst ?scan)"
    by (rule below) simp
  have 2: "[''ws'', ''node_modules'', ''pkg'', ''logo.png''] \<notin> filePath ` set (fst ?scan)"
    by (rule below) simp
  have honours: "?pats \<noteq> [] \<and>
    (\<forall>pattern \<in> set ?pats. \<forall>files.
       findFiles glob_world pattern ''**/node_modules/**'' = Some files \<longrightarrow>
       (\<forall>f \<in> set files. ''node_modules'' \<notin> set (butlast (path_relative [''ws''] f))))"
    by (auto simp: glob_world_def fixture_def)
  have 3: "[''ws'', ''node_modules'', ''pkg'', ''logo.png''] \<notin> filePath ` set (fst ?glob)"
  proof
    assume "[''ws'', ''node_modules'', ''pkg'', ''logo.png''] \<in> filePath ` set (fst ?glob)"
    then obtain r where r: "r \<in> set (fst ?glob)"
      and p: "filePath r = [''ws'', ''node_modules'', ''pkg'', ''logo.png'']"
      by auto
    from g honours r have "relativePath r = path_relative [''ws''] (filePath r)"
      and "''node_modules'' \<notin> set (butlast (relativePath r))"
      by blast+
    with p show False by simp
  qed
  have 4: "lookup hidden_tree [''ws'', ''node_modules'', ''pkg'', ''logo.png'']
      = Some (File [[0x61, 0x62]] True)"
    by (simp add: hidden_tree_def)
  from 1 2 3 4 show ?thesis by simp
qed

end
